theory Spec2Isabelle
  imports Complex_Main "HOL-Library.Sublist"
begin

section \<open>Values of the test API server\<close>

text \<open>
  The server \<^verbatim>\<open>test_api_server.py\<close> keeps organizations, users and profiles as
  Python dictionaries built from JSON. A value is modelled by the datatype \<open>json\<close>; a
  dictionary is an association list in insertion order (Python dictionaries keep it), with
  pairwise distinct keys. Numbers are Python's unbounded integers; floats are left out of
  the model. Strings are lists of 8-bit characters, so the model covers ASCII text.
\<close>

datatype json =
    JNull
  | JBool bool
  | JInt int
  | JStr string
  | JList "json list"
  | JObj "(string \<times> json) list"

type_synonym pydict = "(string \<times> json) list"

text \<open>
  Exceptions are values. \<open>KeyError k\<close> carries the missing key, \<open>AttributeError\<close>
  and \<open>TypeError\<close> their message; \<open>BadRequest\<close> is what \<^verbatim>\<open>request.get_json()\<close>
  raises on a body that is not JSON.
\<close>

datatype py_error =
  KeyError string | AttributeError string | TypeError string | ZeroDivisionError | BadRequest

definition ebind :: "'e + 'a \<Rightarrow> ('a \<Rightarrow> 'e + 'b) \<Rightarrow> 'e + 'b" where
  "ebind m f = (case m of Inl e \<Rightarrow> Inl e | Inr x \<Rightarrow> f x)"

subsection \<open>Python built-ins used by the server\<close>

text \<open>Truth value of an object: \<^verbatim>\<open>None\<close>, \<^verbatim>\<open>False\<close>, 0 and empty containers are false.\<close>

fun truthy :: "json \<Rightarrow> bool" where
  "truthy JNull = False"
| "truthy (JBool b) = b"
| "truthy (JInt i) = (i \<noteq> 0)"
| "truthy (JStr s) = (s \<noteq> [])"
| "truthy (JList xs) = (xs \<noteq> [])"
| "truthy (JObj kvs) = (kvs \<noteq> [])"

text \<open>Python's \<^verbatim>\<open>xs[i:j]\<close>: a negative index counts from the end, and both are clamped.\<close>

definition py_slice :: "'a list \<Rightarrow> int \<Rightarrow> int \<Rightarrow> 'a list" where
  "py_slice xs i j =
     (let n = int (length xs);
          lo = (if i < 0 then max (i + n) 0 else min i n);
          hi = (if j < 0 then max (j + n) 0 else min j n)
      in take (nat (hi - lo)) (drop (nat lo) xs))"

text \<open>Decimal digits of a number, \<^verbatim>\<open>str(i)\<close> on an integer, and the format \<^verbatim>\<open>{n:03d}\<close>.\<close>

fun digits10 :: "nat \<Rightarrow> string" where
  "digits10 n =
     (if n < 10 then [''0123456789'' ! n]
      else digits10 (n div 10) @ [''0123456789'' ! (n mod 10)])"

definition str_int :: "int \<Rightarrow> string" where
  "str_int i = (if i < 0 then ''-'' @ digits10 (nat (- i)) else digits10 (nat i))"

definition fmt03d :: "nat \<Rightarrow> string" where
  "fmt03d n = replicate (3 - length (digits10 n)) (CHR ''0'') @ digits10 n"

text \<open>\<^verbatim>\<open>s.lower()\<close>, \<^verbatim>\<open>s.capitalize()\<close>, \<^verbatim>\<open>s.strip()\<close> on ASCII text.\<close>

definition lower_char :: "char \<Rightarrow> char" where
  "lower_char c =
     (case map_of (zip ''ABCDEFGHIJKLMNOPQRSTUVWXYZ'' ''abcdefghijklmnopqrstuvwxyz'') c of
        Some d \<Rightarrow> d | None \<Rightarrow> c)"

definition upper_char :: "char \<Rightarrow> char" where
  "upper_char c =
     (case map_of (zip ''abcdefghijklmnopqrstuvwxyz'' ''ABCDEFGHIJKLMNOPQRSTUVWXYZ'') c of
        Some d \<Rightarrow> d | None \<Rightarrow> c)"

definition py_lower :: "string \<Rightarrow> string" where
  "py_lower s = map lower_char s"

definition py_capitalize :: "string \<Rightarrow> string" where
  "py_capitalize s = (case s of [] \<Rightarrow> [] | c # cs \<Rightarrow> upper_char c # map lower_char cs)"

definition py_isspace :: "char \<Rightarrow> bool" where
  "py_isspace c = (c \<in> set [CHR 0x09, CHR 0x0A, CHR 0x0B, CHR 0x0C, CHR 0x0D,
                             CHR 0x1C, CHR 0x1D, CHR 0x1E, CHR 0x1F, CHR 0x20])"

definition py_strip :: "string \<Rightarrow> string" where
  "py_strip s = rev (dropWhile py_isspace (rev (dropWhile py_isspace s)))"

text \<open>
  \<^verbatim>\<open>s.find(sub)\<close>: the lowest index at which \<^verbatim>\<open>sub\<close> occurs in \<^verbatim>\<open>s\<close>, or -1; and
  \<^verbatim>\<open>sub in s\<close>, which Python defines as \<^verbatim>\<open>s.find(sub) != -1\<close>.
\<close>

fun py_find :: "string \<Rightarrow> string \<Rightarrow> int" where
  "py_find [] sub = (if sub = [] then 0 else - 1)"
| "py_find (c # s) sub =
     (if prefix sub (c # s) then 0
      else (let r = py_find s sub in if r = - 1 then - 1 else r + 1))"

definition py_in_str :: "string \<Rightarrow> string \<Rightarrow> bool" where
  "py_in_str sub s = (py_find s sub \<noteq> - 1)"

text \<open>\<^verbatim>\<open>s.split(sep)\<close> for a separator of one character: empty segments are kept.\<close>

fun py_split :: "char \<Rightarrow> string \<Rightarrow> string list" where
  "py_split sep [] = [[] :: string]"
| "py_split sep (c # cs) =
     (if c = sep then [] # py_split sep cs
      else (case py_split sep cs of
              w # ws \<Rightarrow> (c # w) # ws
            | [] \<Rightarrow> [c # []]))"

definition py_join :: "string \<Rightarrow> string list \<Rightarrow> string" where
  "py_join sep xs = concat (case xs of [] \<Rightarrow> [] | y # ys \<Rightarrow> y # map (\<lambda>z. sep @ z) ys)"

text \<open>
  \<^verbatim>\<open>repr\<close> of a string: single quotes unless the string has a single quote and no double
  quote; the quote and the backslash are escaped, control characters are written
  \<^verbatim>\<open>\t\<close>, \<^verbatim>\<open>\n\<close>, \<^verbatim>\<open>\r\<close> or \<^verbatim>\<open>\xNN\<close>.
\<close>

definition hex2 :: "char \<Rightarrow> string" where
  "hex2 c = [''0123456789abcdef'' ! (of_char c div 16), ''0123456789abcdef'' ! (of_char c mod 16)]"

definition repr_char :: "char \<Rightarrow> char \<Rightarrow> string" where
  "repr_char q c =
     (if c = q \<or> c = CHR 0x5C then [CHR 0x5C, c]
      else if c = CHR 0x09 then [CHR 0x5C, CHR ''t'']
      else if c = CHR 0x0A then [CHR 0x5C, CHR ''n'']
      else if c = CHR 0x0D then [CHR 0x5C, CHR ''r'']
      else if (of_char c :: nat) < 32 \<or> (of_char c :: nat) = 127 then [CHR 0x5C, CHR ''x''] @ hex2 c
      else [c])"

definition repr_str :: "string \<Rightarrow> string" where
  "repr_str s =
     (let q = (if CHR 0x27 \<in> set s \<and> CHR 0x22 \<notin> set s then CHR 0x22 else CHR 0x27)
      in [q] @ concat (map (repr_char q) s) @ [q])"

text \<open>
  \<^verbatim>\<open>repr\<close> and \<^verbatim>\<open>str\<close> of a value. They differ on strings only: \<^verbatim>\<open>str\<close> of a string is
  the string itself.
\<close>

primrec py_repr :: "json \<Rightarrow> string" where
  "py_repr JNull = ''None''"
| "py_repr (JBool b) = (if b then ''True'' else ''False'')"
| "py_repr (JInt i) = str_int i"
| "py_repr (JStr s) = repr_str s"
| "py_repr (JList xs) = ''['' @ py_join '', '' (map py_repr xs) @ '']''"
| "py_repr (JObj kvs) =
     ''{'' @ py_join '', '' (map (\<lambda>(k, r). repr_str k @ '': '' @ r) (map (map_prod id py_repr) kvs))
     @ ''}''"

definition py_str :: "json \<Rightarrow> string" where
  "py_str v = (case v of JStr s \<Rightarrow> s | _ \<Rightarrow> py_repr v)"

text \<open>
  Dictionary operations: \<^verbatim>\<open>d.get(k, default)\<close>, \<^verbatim>\<open>d[k]\<close>, \<^verbatim>\<open>k in d\<close>, \<^verbatim>\<open>d[k] = v\<close>
  (an existing key keeps its place, a new key goes last) and \<^verbatim>\<open>d.update(e)\<close>.
\<close>

definition dict_get :: "pydict \<Rightarrow> string \<Rightarrow> json \<Rightarrow> json" where
  "dict_get d k dflt = (case map_of d k of Some v \<Rightarrow> v | None \<Rightarrow> dflt)"

definition dict_getitem :: "pydict \<Rightarrow> string \<Rightarrow> py_error + json" where
  "dict_getitem d k = (case map_of d k of Some v \<Rightarrow> Inr v | None \<Rightarrow> Inl (KeyError k))"

definition dict_has :: "pydict \<Rightarrow> string \<Rightarrow> bool" where
  "dict_has d k = (map_of d k \<noteq> None)"

definition dict_set :: "pydict \<Rightarrow> string \<Rightarrow> json \<Rightarrow> pydict" where
  "dict_set d k v =
     (if dict_has d k then map (\<lambda>(k', v'). if k' = k then (k', v) else (k', v')) d
      else d @ [(k, v)])"

definition dict_update :: "pydict \<Rightarrow> pydict \<Rightarrow> pydict" where
  "dict_update d e = fold (\<lambda>(k, v) acc. dict_set acc k v) e d"

text \<open>
  The same operations on a value that need not be a dictionary: \<^verbatim>\<open>.get\<close> on anything
  else raises \<^verbatim>\<open>AttributeError\<close>; \<^verbatim>\<open>k in x\<close> tests membership in a list and
  containment in a string, and raises \<^verbatim>\<open>TypeError\<close> on a scalar; \<^verbatim>\<open>x[k]\<close> with a
  string key raises \<^verbatim>\<open>TypeError\<close> on anything but a dictionary.
\<close>

fun py_type_name :: "json \<Rightarrow> string" where
  "py_type_name JNull = ''NoneType''"
| "py_type_name (JBool b) = ''bool''"
| "py_type_name (JInt i) = ''int''"
| "py_type_name (JStr s) = ''str''"
| "py_type_name (JList xs) = ''list''"
| "py_type_name (JObj d) = ''dict''"

definition no_attribute_get :: "json \<Rightarrow> py_error" where
  "no_attribute_get v =
     AttributeError ([CHR 0x27] @ py_type_name v @ [CHR 0x27] @ '' object has no attribute ''
                     @ [CHR 0x27] @ ''get'' @ [CHR 0x27])"

definition not_iterable :: "json \<Rightarrow> py_error" where
  "not_iterable v =
     TypeError (''argument of type '' @ [CHR 0x27] @ py_type_name v @ [CHR 0x27] @ '' is not iterable'')"

definition not_subscriptable :: "json \<Rightarrow> py_error" where
  "not_subscriptable v =
     TypeError
       (case v of
          JList xs \<Rightarrow> ''list indices must be integers or slices, not str''
        | JStr s \<Rightarrow> ''string indices must be integers, not '' @ [CHR 0x27] @ ''str'' @ [CHR 0x27]
        | _ \<Rightarrow> [CHR 0x27] @ py_type_name v @ [CHR 0x27] @ '' object is not subscriptable'')"

fun py_get :: "json \<Rightarrow> string \<Rightarrow> json \<Rightarrow> py_error + json" where
  "py_get (JObj d) k dflt = Inr (dict_get d k dflt)"
| "py_get v k dflt = Inl (no_attribute_get v)"

fun py_has :: "string \<Rightarrow> json \<Rightarrow> py_error + bool" where
  "py_has k (JObj d) = Inr (dict_has d k)"
| "py_has k (JList xs) = Inr (JStr k \<in> set xs)"
| "py_has k (JStr s) = Inr (py_in_str k s)"
| "py_has k v = Inl (not_iterable v)"

fun py_getitem :: "json \<Rightarrow> string \<Rightarrow> py_error + json" where
  "py_getitem (JObj d) k = dict_getitem d k"
| "py_getitem v k = Inl (not_subscriptable v)"

text \<open>
  \<^verbatim>\<open>str(e)\<close> of an exception: the \<^verbatim>\<open>repr\<close> of the key for a \<^verbatim>\<open>KeyError\<close>, the message
  otherwise.
\<close>

fun exc_str :: "py_error \<Rightarrow> string" where
  "exc_str (KeyError k) = repr_str k"
| "exc_str (AttributeError m) = m"
| "exc_str (TypeError m) = m"
| "exc_str ZeroDivisionError = ''integer division or modulo by zero''"
| "exc_str BadRequest = ''400 Bad Request''"

section \<open>Paginator\<close>

text \<open>
  \<^verbatim>\<open>
  def paginate_data(data, page=1, per_page=10):
      start_idx = (page - 1) * per_page
      end_idx = start_idx + per_page
      return {"items": data[start_idx:end_idx], "total": len(data), "page": page,
              "per_page": per_page,
              "total_pages": (len(data) + per_page - 1) // per_page}
  \<close>
  The floor division raises \<^verbatim>\<open>ZeroDivisionError\<close> when \<^verbatim>\<open>per_page\<close> is 0.
\<close>

definition paginate_data :: "json list \<Rightarrow> int \<Rightarrow> int \<Rightarrow> py_error + json" where
  "paginate_data data page per_page =
     (let start_idx = (page - 1) * per_page;
          end_idx = start_idx + per_page
      in if per_page = 0 then Inl ZeroDivisionError
         else Inr (JObj [(''items'', JList (py_slice data start_idx end_idx)),
                         (''total'', JInt (int (length data))),
                         (''page'', JInt page),
                         (''per_page'', JInt per_page),
                         (''total_pages'', JInt ((int (length data) + per_page - 1) div per_page))]))"

text \<open>Reading the fields of a page descriptor back.\<close>

definition page_items :: "py_error + json \<Rightarrow> json list" where
  "page_items r =
     (case r of
        Inr (JObj kvs) \<Rightarrow> (case map_of kvs ''items'' of Some (JList xs) \<Rightarrow> xs | _ \<Rightarrow> [])
      | _ \<Rightarrow> [])"

definition page_total_pages :: "py_error + json \<Rightarrow> int" where
  "page_total_pages r =
     (case r of
        Inr (JObj kvs) \<Rightarrow> (case map_of kvs ''total_pages'' of Some (JInt n) \<Rightarrow> n | _ \<Rightarrow> 0)
      | _ \<Rightarrow> 0)"

section \<open>Nested Filter Engine\<close>

text \<open>
  \<^verbatim>\<open>
  def _get_nested_value(item, key_path, search_value) -> bool:
      keys = key_path.split('.')
      current = item
      try:
          for key in keys:
              if isinstance(current, dict) and key in current:
                  current = current[key]
              else:
                  return False
          return str(current).lower().find(str(search_value).lower()) != -1
      except:
          return False
  \<close>
  \<open>nested_walk\<close> is the \<^verbatim>\<open>for\<close> loop: \<open>None\<close> is its early \<^verbatim>\<open>return False\<close>, \<open>Some\<close>
  the value of \<^verbatim>\<open>current\<close> after the last key. Nothing in the \<^verbatim>\<open>try\<close> block raises on
  a JSON value, so the \<^verbatim>\<open>except\<close> branch has no counterpart. A leading underscore is
  dropped from the names of the source.
\<close>

fun nested_walk :: "json \<Rightarrow> string list \<Rightarrow> json option" where
  "nested_walk current [] = Some current"
| "nested_walk current (key # keys) =
     (case current of
        JObj d \<Rightarrow> (if dict_has d key then nested_walk (dict_get d key JNull) keys else None)
      | _ \<Rightarrow> None)"

definition get_nested_value :: "json \<Rightarrow> string \<Rightarrow> json \<Rightarrow> bool" where
  "get_nested_value item key_path search_value =
     (let keys = py_split (CHR ''.'') key_path
      in case nested_walk item keys of
           None \<Rightarrow> False
         | Some current \<Rightarrow>
             py_find (py_lower (py_str current)) (py_lower (py_str search_value)) \<noteq> - 1)"

text \<open>
  \<^verbatim>\<open>
  def _get_field_value(item, key) -> str:
      return str(item.get(key, ''))
  \<close>
\<close>

definition get_field_value :: "json \<Rightarrow> string \<Rightarrow> py_error + string" where
  "get_field_value item key = ebind (py_get item key (JStr [])) (\<lambda>v. Inr (py_str v))"

text \<open>
  \<^verbatim>\<open>
  def filter_data(data, filters):
      filtered = data
      for key, value in filters.items():
          if '.' in key:
              filtered = [item for item in filtered if _get_nested_value(item, key, value)]
          else:
              filtered = [item for item in filtered
                          if str(_get_field_value(item, key)).lower().find(str(value).lower()) != -1]
      return filtered
  \<close>
  \<open>filter_top_level\<close> is the second comprehension; it raises when an item has no
  \<^verbatim>\<open>get\<close>. The filters are the items of the dictionary, in its order.
\<close>

fun filter_top_level :: "json list \<Rightarrow> string \<Rightarrow> json \<Rightarrow> py_error + json list" where
  "filter_top_level [] key value = Inr []"
| "filter_top_level (item # rest) key value =
     ebind (get_field_value item key) (\<lambda>s.
       ebind (filter_top_level rest key value) (\<lambda>kept.
         Inr (if py_find (py_lower (py_str (JStr s))) (py_lower (py_str value)) \<noteq> - 1
              then item # kept else kept)))"

fun filter_data :: "json list \<Rightarrow> pydict \<Rightarrow> py_error + json list" where
  "filter_data filtered [] = Inr filtered"
| "filter_data filtered ((key, value) # filters) =
     (if CHR ''.'' \<in> set key
      then filter_data [item \<leftarrow> filtered. get_nested_value item key value] filters
      else ebind (filter_top_level filtered key value) (\<lambda>kept. filter_data kept filters))"

subsection \<open>The filter engine as the specification words it\<close>

text \<open>
  The Field Accessor resolves a dot-separated path: at each segment the current value must
  be a mapping that has the segment as a key, otherwise the lookup fails.
\<close>

definition spec_field_accessor :: "json \<Rightarrow> string \<Rightarrow> json option" where
  "spec_field_accessor record path =
     fold (\<lambda>segment current.
             case current of Some (JObj d) \<Rightarrow> map_of d segment | _ \<Rightarrow> None)
          (py_split (CHR ''.'') path) (Some record)"

text \<open>A text contains a value case-insensitively: lowered, the value is a sublist of it.\<close>

definition spec_contains_ci :: "string \<Rightarrow> string \<Rightarrow> bool" where
  "spec_contains_ci text v = sublist (py_lower v) (py_lower text)"

text \<open>The direct field of a record, the empty string when the field is missing.\<close>

definition spec_direct_field :: "json \<Rightarrow> string \<Rightarrow> json" where
  "spec_direct_field record key =
     (case record of
        JObj d \<Rightarrow> (case map_of d key of Some v \<Rightarrow> v | None \<Rightarrow> JStr [])
      | _ \<Rightarrow> JStr [])"

definition spec_filter_matches :: "json \<Rightarrow> string \<Rightarrow> json \<Rightarrow> bool" where
  "spec_filter_matches record key value =
     (if CHR ''.'' \<in> set key
      then (case spec_field_accessor record key of
              Some x \<Rightarrow> spec_contains_ci (py_str x) (py_str value)
            | None \<Rightarrow> False)
      else spec_contains_ci (py_str (spec_direct_field record key)) (py_str value))"

definition is_mapping :: "json \<Rightarrow> bool" where
  "is_mapping v = (case v of JObj d \<Rightarrow> True | _ \<Rightarrow> False)"

section \<open>Recursive Text Search\<close>

text \<open>
  The search reads the records as they are stored. The \<^verbatim>\<open>GET\<close> branches of
  \<^verbatim>\<open>handle_organization\<close> and \<^verbatim>\<open>handle_user\<close> write references into the stored
  records (\<^verbatim>\<open>org["users"] = org_users\<close> and \<^verbatim>\<open>user["organization"] = org\<close>), so a stored
  record can contain itself. A stored value is therefore a JSON value that may hold
  references \<open>SRef a\<close> to dictionaries kept in a store, a map from addresses to
  dictionaries; \<open>of_json\<close> is a value without references.
\<close>

datatype stored =
    SNull
  | SBool bool
  | SInt int
  | SStr string
  | SList "stored list"
  | SObj "(string \<times> stored) list"
  | SRef nat

type_synonym store = "nat \<Rightarrow> (string \<times> stored) list"



text \<open>
  \<^verbatim>\<open>
  def _item_matches_query(item, query_lower) -> bool:
      if isinstance(item, dict):
          for key, value in item.items():
              if isinstance(value, str) and query_lower in value.lower():
                  return True
              elif isinstance(value, (dict, list)):
                  if _item_matches_query(value, query_lower):
                      return True
      elif isinstance(item, list):
          for sub_item in item:
              if _item_matches_query(sub_item, query_lower):
                  return True
      elif isinstance(item, str):
          return query_lower in item.lower()
      return False
  \<close>
  The function calls itself with no bound of its own; the interpreter bounds the depth of
  calls and raises \<^verbatim>\<open>RecursionError\<close> beyond it. The first argument of the model is the
  number of calls the interpreter still allows (its recursion limit less the depth of the
  stack at the call): every call of the function takes one, and a call with none left
  raises. \<open>dict_items_loop\<close> and \<open>list_items_loop\<close> are the two \<^verbatim>\<open>for\<close> statements, over
  the items that remain; an exception raised in a call leaves them at once.
\<close>

datatype recursion_error = RecursionError

fun item_matches_query :: "nat \<Rightarrow> store \<Rightarrow> stored \<Rightarrow> string \<Rightarrow> recursion_error + bool"
  and dict_items_loop ::
    "nat \<Rightarrow> store \<Rightarrow> (string \<times> stored) list \<Rightarrow> string \<Rightarrow> recursion_error + bool"
  and list_items_loop :: "nat \<Rightarrow> store \<Rightarrow> stored list \<Rightarrow> string \<Rightarrow> recursion_error + bool" where
  "item_matches_query 0 heap item query_lower = Inl RecursionError"
| "item_matches_query (Suc frames) heap (SObj kvs) query_lower =
     dict_items_loop frames heap kvs query_lower"
| "item_matches_query (Suc frames) heap (SRef a) query_lower =
     dict_items_loop frames heap (heap a) query_lower"
| "item_matches_query (Suc frames) heap (SList xs) query_lower =
     list_items_loop frames heap xs query_lower"
| "item_matches_query (Suc frames) heap (SStr s) query_lower =
     Inr (py_in_str query_lower (py_lower s))"
| "item_matches_query (Suc frames) heap SNull query_lower = Inr False"
| "item_matches_query (Suc frames) heap (SBool b) query_lower = Inr False"
| "item_matches_query (Suc frames) heap (SInt i) query_lower = Inr False"
| "dict_items_loop frames heap [] query_lower = Inr False"
| "dict_items_loop frames heap ((key, value) # rest) query_lower =
     (case value of
        SStr s \<Rightarrow>
          if py_in_str query_lower (py_lower s) then Inr True
          else dict_items_loop frames heap rest query_lower
      | SObj d \<Rightarrow>
          (case item_matches_query frames heap value query_lower of
             Inl e \<Rightarrow> Inl e
           | Inr found \<Rightarrow>
               if found then Inr True else dict_items_loop frames heap rest query_lower)
      | SRef a \<Rightarrow>
          (case item_matches_query frames heap value query_lower of
             Inl e \<Rightarrow> Inl e
           | Inr found \<Rightarrow>
               if found then Inr True else dict_items_loop frames heap rest query_lower)
      | SList ys \<Rightarrow>
          (case item_matches_query frames heap value query_lower of
             Inl e \<Rightarrow> Inl e
           | Inr found \<Rightarrow>
               if found then Inr True else dict_items_loop frames heap rest query_lower)
      | _ \<Rightarrow> dict_items_loop frames heap rest query_lower)"
| "list_items_loop frames heap [] query_lower = Inr False"
| "list_items_loop frames heap (sub_item # rest) query_lower =
     (case item_matches_query frames heap sub_item query_lower of
        Inl e \<Rightarrow> Inl e
      | Inr found \<Rightarrow>
          if found then Inr True else list_items_loop frames heap rest query_lower)"

text \<open>
  \<^verbatim>\<open>
  def search_in_text(data, query):
      if not query:
          return data
      query_lower = query.lower()
      results = []
      for item in data:
          if _item_matches_query(item, query_lower):
              results.append(item)
      return results
  \<close>
  Here the first argument is the number of calls that the interpreter still allows the
  body of \<^verbatim>\<open>search_in_text\<close> to nest.
\<close>

fun search_loop ::
    "nat \<Rightarrow> store \<Rightarrow> stored list \<Rightarrow> string \<Rightarrow> stored list \<Rightarrow> recursion_error + stored list" where
  "search_loop frames heap [] query_lower results = Inr results"
| "search_loop frames heap (item # rest) query_lower results =
     (case item_matches_query frames heap item query_lower of
        Inl e \<Rightarrow> Inl e
      | Inr found \<Rightarrow>
          search_loop frames heap rest query_lower (if found then results @ [item] else results))"

definition search_in_text ::
    "nat \<Rightarrow> store \<Rightarrow> stored list \<Rightarrow> string \<Rightarrow> recursion_error + stored list" where
  "search_in_text frames heap data query =
     (if query = [] then Inr data
      else (let query_lower = py_lower query in search_loop frames heap data query_lower []))"

subsection \<open>The traversal rule as the specification words it\<close>


text \<open>
  The depth of calls that a traversal of a whole value makes: one for the value itself,
  and below it the deepest of the members it is called on, which are all the elements of
  a sequence and the mapping- and sequence-valued fields of a mapping.
\<close>

fun frames_needed :: "json \<Rightarrow> nat" where
  "frames_needed (JObj kvs) =
     Suc (foldr max
            (map (\<lambda>(key, value).
                    case value of
                      JObj d \<Rightarrow> frames_needed value
                    | JList ys \<Rightarrow> frames_needed value
                    | _ \<Rightarrow> 0) kvs) 0)"
| "frames_needed (JList xs) = Suc (foldr max (map frames_needed xs) 0)"
| "frames_needed (JStr s) = 1"
| "frames_needed JNull = 1"
| "frames_needed (JBool b) = 1"
| "frames_needed (JInt i) = 1"






text \<open>
  \<^verbatim>\<open>
  def create_nested_profile(level=10):
      if level == 1:
          return {"data": f"Level {level} data", "metadata": {...}}
      return {f"level{level}": create_nested_profile(level - 1), "metadata": {...}}
  \<close>
  The recursion does not end for a level below 1; the model has \<open>None\<close> there.
\<close>

definition fixture_metadata :: json where
  "fixture_metadata =
     JObj [(''created_at'', JStr ''2024-01-01T00:00:00Z''),
           (''updated_at'', JStr ''2024-01-01T00:00:00Z''),
           (''version'', JStr ''1.0.0'')]"

fun create_nested_profile :: "nat \<Rightarrow> pydict option" where
  "create_nested_profile 0 = None"
| "create_nested_profile (Suc 0) =
     Some [(''data'', JStr (''Level '' @ str_int 1 @ '' data'')), (''metadata'', fixture_metadata)]"
| "create_nested_profile (Suc (Suc n)) =
     (case create_nested_profile (Suc n) of
        None \<Rightarrow> None
      | Some inner \<Rightarrow>
          Some [(''level'' @ str_int (int (Suc (Suc n))), JObj inner), (''metadata'', fixture_metadata)])"
section \<open>Entity validators\<close>

text \<open>
  A validator returns the pair \<^verbatim>\<open>(is_valid, error_msg)\<close> of the source, or the exception
  it raises. Python's \<^verbatim>\<open>==\<close> is HOL's equality here: the two agree whenever one side is a
  string or \<^verbatim>\<open>None\<close>, which holds for every comparison the validators and handlers make
  (with a validated id or email, or with a stored id, which is always a string).
\<close>

type_synonym validation = "bool \<times> string option"

text \<open>
  \<^verbatim>\<open>
  def validate_json_payload(data):
      if not data:
          return False, "Request body must contain valid JSON"
      return True, None
  \<close>
\<close>

definition validate_json_payload :: "json \<Rightarrow> validation" where
  "validate_json_payload data =
     (if \<not> truthy data then (False, Some ''Request body must contain valid JSON'')
      else (True, None))"

text \<open>
  The regular expressions, as \<^verbatim>\<open>re.match\<close> applies them. \<^verbatim>\<open>$\<close> matches at the end of the
  string and before a newline that ends it.
  \<^item> \<^verbatim>\<open>^ORG\d{3,}$\<close>
  \<^item> \<^verbatim>\<open>^USER\d{3,}\<close> and \<^verbatim>\<open>^PROF\d{3,}\<close>, which are not anchored at the end
  \<^item> \<^verbatim>\<open>^[a-zA-Z0-9._%+-]+@[a-zA-Z0-9.-]+\.[a-zA-Z]{2,}$\<close>: the local part is all that
    precedes the first \<^verbatim>\<open>@\<close>, the last label all that follows the last dot.
\<close>

definition is_digit :: "char \<Rightarrow> bool" where
  "is_digit c = (c \<in> set ''0123456789'')"

definition is_alpha :: "char \<Rightarrow> bool" where
  "is_alpha c = (c \<in> set ''abcdefghijklmnopqrstuvwxyzABCDEFGHIJKLMNOPQRSTUVWXYZ'')"

definition strip_final_newline :: "string \<Rightarrow> string" where
  "strip_final_newline s = (if s \<noteq> [] \<and> last s = CHR 0x0A then butlast s else s)"

definition match_org_id :: "string \<Rightarrow> bool" where
  "match_org_id s =
     (let t = strip_final_newline s
      in prefix ''ORG'' t \<and> 3 \<le> length (drop 3 t) \<and> list_all is_digit (drop 3 t))"

definition match_user_id :: "string \<Rightarrow> bool" where
  "match_user_id s = (prefix ''USER'' s \<and> 3 \<le> length (takeWhile is_digit (drop 4 s)))"

definition match_profile_id :: "string \<Rightarrow> bool" where
  "match_profile_id s = (prefix ''PROF'' s \<and> 3 \<le> length (takeWhile is_digit (drop 4 s)))"

definition match_email :: "string \<Rightarrow> bool" where
  "match_email s =
     (let t = strip_final_newline s;
          local_part = takeWhile (\<lambda>c. c \<noteq> CHR ''@'') t;
          rest = drop (length local_part + 1) t;
          tld = rev (takeWhile (\<lambda>c. c \<noteq> CHR ''.'') (rev rest));
          domain = take (length rest - length tld - 1) rest
      in local_part \<noteq> [] \<and> length local_part < length t
         \<and> list_all (\<lambda>c. is_alpha c \<or> is_digit c \<or> c \<in> set ''._%+-'') local_part
         \<and> length tld < length rest
         \<and> domain \<noteq> [] \<and> list_all (\<lambda>c. is_alpha c \<or> is_digit c \<or> c \<in> set ''.-'') domain
         \<and> 2 \<le> length tld \<and> list_all is_alpha tld)"

text \<open>
  A check is one \<^verbatim>\<open>if ...: return False, msg\<close> block of a validator: \<open>Some msg\<close> when it
  returns, \<open>None\<close> when the validator goes on. \<open>echeck\<close> chains a check and what follows.
\<close>

definition echeck :: "py_error + string option \<Rightarrow> py_error + validation \<Rightarrow> py_error + validation" where
  "echeck c rest =
     (case c of
        Inl e \<Rightarrow> Inl e
      | Inr (Some msg) \<Rightarrow> Inr (False, Some msg)
      | Inr None \<Rightarrow> rest)"

text \<open>
  \<^verbatim>\<open>
  if not is_update:
      if not data.get('name'):
          return False, "Field 'name' is required and cannot be empty"
  \<close>
\<close>

definition required_field :: "json \<Rightarrow> bool \<Rightarrow> string \<Rightarrow> py_error + string option" where
  "required_field data is_update field =
     (if is_update then Inr None
      else ebind (py_get data field JNull) (\<lambda>v.
             if \<not> truthy v
             then Inr (Some (''Field '' @ [CHR 0x27] @ field @ [CHR 0x27]
                             @ '' is required and cannot be empty''))
             else Inr None))"

text \<open>
  \<^verbatim>\<open>
  if 'name' in data:
      name = data['name']
      if not isinstance(name, str) or len(name.strip()) == 0:
          return False, "Field 'name' must be a non-empty string"
      if len(name) > 100:
          return False, "Field 'name' must be 100 characters or less"
  \<close>
\<close>

definition name_block :: "json \<Rightarrow> py_error + string option" where
  "name_block data =
     ebind (py_has ''name'' data) (\<lambda>present.
       if \<not> present then Inr None
       else ebind (py_getitem data ''name'') (\<lambda>name.
              case name of
                JStr s \<Rightarrow>
                  if length (py_strip s) = 0
                  then Inr (Some ''Field 'name' must be a non-empty string'')
                  else if length s > 100
                  then Inr (Some ''Field 'name' must be 100 characters or less'')
                  else Inr None
              | _ \<Rightarrow> Inr (Some ''Field 'name' must be a non-empty string'')))"

text \<open>
  \<^verbatim>\<open>
  def validate_organization_data(data, is_update=False):
      if not is_update:
          if not data.get('name'): return False, "Field 'name' is required and cannot be empty"
          if not data.get('type'): return False, "Field 'type' is required and cannot be empty"
      if 'name' in data: ...
      if 'type' in data:
          org_type = data['type']
          valid_types = ['test', 'enterprise', 'startup', 'nonprofit', 'government']
          if not isinstance(org_type, str) or org_type not in valid_types:
              return False, f"Field 'type' must be one of: {', '.join(valid_types)}"
      if 'id' in data:
          org_id = data['id']
          if not isinstance(org_id, str) or not re.match(r'^ORG\d{3,}$', org_id):
              return False, "Field 'id' must follow format 'ORG###' (e.g., 'ORG001', 'ORG123')"
      return True, None
  \<close>
\<close>

definition valid_types :: "string list" where
  "valid_types = [''test'', ''enterprise'', ''startup'', ''nonprofit'', ''government'']"

definition type_block :: "json \<Rightarrow> py_error + string option" where
  "type_block data =
     ebind (py_has ''type'' data) (\<lambda>present.
       if \<not> present then Inr None
       else ebind (py_getitem data ''type'') (\<lambda>org_type.
              case org_type of
                JStr s \<Rightarrow>
                  if s \<notin> set valid_types
                  then Inr (Some (''Field 'type' must be one of: '' @ py_join '', '' valid_types))
                  else Inr None
              | _ \<Rightarrow> Inr (Some (''Field 'type' must be one of: '' @ py_join '', '' valid_types))))"

definition id_block :: "(string \<Rightarrow> bool) \<Rightarrow> string \<Rightarrow> json \<Rightarrow> py_error + string option" where
  "id_block matches msg data =
     ebind (py_has ''id'' data) (\<lambda>present.
       if \<not> present then Inr None
       else ebind (py_getitem data ''id'') (\<lambda>entity_id.
              case entity_id of
                JStr s \<Rightarrow> if \<not> matches s then Inr (Some msg) else Inr None
              | _ \<Rightarrow> Inr (Some msg)))"

definition validate_organization_data :: "json \<Rightarrow> bool \<Rightarrow> py_error + validation" where
  "validate_organization_data data is_update =
     echeck (required_field data is_update ''name'')
    (echeck (required_field data is_update ''type'')
    (echeck (name_block data)
    (echeck (type_block data)
    (echeck (id_block match_org_id
               ''Field 'id' must follow format 'ORG###' (e.g., 'ORG001', 'ORG123')'' data)
    (Inr (True, None))))))"

text \<open>
  \<^verbatim>\<open>
  def validate_profile_data(data, is_update=False):
      if not is_update:
          if not data.get('name'): return False, "Field 'name' is required and cannot be empty"
      if 'name' in data: ...
      if 'settings' in data:
          settings = data['settings']
          if not isinstance(settings, dict):
              return False, "Field 'settings' must be a valid JSON object"
      if 'preferences' in data: ...
      if 'id' in data:
          profile_id = data['id']
          if not isinstance(profile_id, str) or not re.match(r'^PROF\d{3,}', profile_id):
              return False, "Field 'id' must follow format 'PROF###' (e.g., 'PROF001', 'PROF123')"
      return True, None
  \<close>
\<close>

definition object_block :: "string \<Rightarrow> json \<Rightarrow> py_error + string option" where
  "object_block field data =
     ebind (py_has field data) (\<lambda>present.
       if \<not> present then Inr None
       else ebind (py_getitem data field) (\<lambda>v.
              case v of
                JObj d \<Rightarrow> Inr None
              | _ \<Rightarrow> Inr (Some (''Field '' @ [CHR 0x27] @ field @ [CHR 0x27]
                                 @ '' must be a valid JSON object''))))"

definition validate_profile_data :: "json \<Rightarrow> bool \<Rightarrow> py_error + validation" where
  "validate_profile_data data is_update =
     echeck (required_field data is_update ''name'')
    (echeck (name_block data)
    (echeck (object_block ''settings'' data)
    (echeck (object_block ''preferences'' data)
    (echeck (id_block match_profile_id
               ''Field 'id' must follow format 'PROF###' (e.g., 'PROF001', 'PROF123')'' data)
    (Inr (True, None))))))"

section \<open>The collections\<close>

text \<open>
  The three module-level lists \<^verbatim>\<open>SAMPLE_ORGANIZATIONS\<close>, \<^verbatim>\<open>SAMPLE_USERS\<close> and
  \<^verbatim>\<open>SAMPLE_PROFILES\<close> are the state; every entry is a dictionary. The handlers read the
  time by \<^verbatim>\<open>datetime.utcnow().isoformat()\<close>: the model takes a clock, a function from the
  number of readings made so far to the text read, and counts the readings in the state.
  The decorators of the handlers (token check, rate limit, cache) are outside the model.
\<close>

record server_state =
  SAMPLE_ORGANIZATIONS :: "pydict list"
  SAMPLE_USERS :: "pydict list"
  SAMPLE_PROFILES :: "pydict list"
  clock_readings :: nat

definition utcnow_isoformat :: "(nat \<Rightarrow> string) \<Rightarrow> server_state \<Rightarrow> string \<times> server_state" where
  "utcnow_isoformat clock st =
     (clock (clock_readings st), st\<lparr>clock_readings := Suc (clock_readings st)\<rparr>)"

text \<open>
  \<^verbatim>\<open>
  existing_user = next((user for user in SAMPLE_USERS
                        if user["email"] == email and user["id"] != exclude_user_id), None)
  \<close>
\<close>

fun find_email_user :: "pydict list \<Rightarrow> string \<Rightarrow> json \<Rightarrow> py_error + pydict option" where
  "find_email_user [] email exclude_user_id = Inr None"
| "find_email_user (user # rest) email exclude_user_id =
     ebind (dict_getitem user ''email'') (\<lambda>e.
       if e = JStr email
       then ebind (dict_getitem user ''id'') (\<lambda>i.
              if i \<noteq> exclude_user_id then Inr (Some user)
              else find_email_user rest email exclude_user_id)
       else find_email_user rest email exclude_user_id)"

text \<open>\<^verbatim>\<open>next((org for org in SAMPLE_ORGANIZATIONS if org["id"] == org_id), None)\<close>\<close>

fun find_id :: "pydict list \<Rightarrow> json \<Rightarrow> py_error + pydict option" where
  "find_id [] entity_id = Inr None"
| "find_id (item # rest) entity_id =
     ebind (dict_getitem item ''id'') (\<lambda>i.
       if i = entity_id then Inr (Some item) else find_id rest entity_id)"

text \<open>
  \<^verbatim>\<open>
  def validate_user_data(data, is_update=False, exclude_user_id=None):
      if not is_update:
          if not data.get('name'): return False, "Field 'name' is required and cannot be empty"
          if not data.get('email'): return False, "Field 'email' is required and cannot be empty"
      if 'name' in data: ...
      if 'email' in data:
          email = data['email']
          email_pattern = r'^[a-zA-Z0-9._%+-]+@[a-zA-Z0-9.-]+\.[a-zA-Z]{2,}$'
          if not isinstance(email, str) or not re.match(email_pattern, email):
              return False, "Field 'email' must be a valid email address"
          # Check for duplicate email (excluding current user in updates)
          existing_user = next(...)
          if existing_user:
              return False, f"Email '{email}' is already in use by another user"
      if 'organization_id' in data:
          org_id = data['organization_id']
          if org_id:  # Allow None/empty for optional field
              existing_org = next((org for org in SAMPLE_ORGANIZATIONS if org["id"] == org_id), None)
              if not existing_org:
                  return False, f"Organization with ID '{org_id}' does not exist"
      if 'id' in data:
          user_id = data['id']
          if not isinstance(user_id, str) or not re.match(r'^USER\d{3,}', user_id):
              return False, "Field 'id' must follow format 'USER###' (e.g., 'USER001', 'USER123')"
      return True, None
  \<close>
\<close>

definition email_block :: "server_state \<Rightarrow> json \<Rightarrow> json \<Rightarrow> py_error + string option" where
  "email_block st data exclude_user_id =
     ebind (py_has ''email'' data) (\<lambda>present.
       if \<not> present then Inr None
       else ebind (py_getitem data ''email'') (\<lambda>email.
              case email of
                JStr s \<Rightarrow>
                  if \<not> match_email s
                  then Inr (Some ''Field 'email' must be a valid email address'')
                  else ebind (find_email_user (SAMPLE_USERS st) s exclude_user_id) (\<lambda>existing_user.
                         case existing_user of
                           None \<Rightarrow> Inr None
                         | Some user \<Rightarrow>
                             if truthy (JObj user)
                             then Inr (Some (''Email '' @ [CHR 0x27] @ s @ [CHR 0x27]
                                             @ '' is already in use by another user''))
                             else Inr None)
              | _ \<Rightarrow> Inr (Some ''Field 'email' must be a valid email address'')))"

definition organization_id_block :: "server_state \<Rightarrow> json \<Rightarrow> py_error + string option" where
  "organization_id_block st data =
     ebind (py_has ''organization_id'' data) (\<lambda>present.
       if \<not> present then Inr None
       else ebind (py_getitem data ''organization_id'') (\<lambda>org_id.
              if \<not> truthy org_id then Inr None
              else ebind (find_id (SAMPLE_ORGANIZATIONS st) org_id) (\<lambda>existing_org.
                     if \<not> (case existing_org of None \<Rightarrow> False | Some org \<Rightarrow> truthy (JObj org))
                     then Inr (Some (''Organization with ID '' @ [CHR 0x27] @ py_str org_id
                                     @ [CHR 0x27] @ '' does not exist''))
                     else Inr None)))"

definition validate_user_data :: "server_state \<Rightarrow> json \<Rightarrow> bool \<Rightarrow> json \<Rightarrow> py_error + validation" where
  "validate_user_data st data is_update exclude_user_id =
     echeck (required_field data is_update ''name'')
    (echeck (required_field data is_update ''email'')
    (echeck (name_block data)
    (echeck (email_block st data exclude_user_id)
    (echeck (organization_id_block st data)
    (echeck (id_block match_user_id
               ''Field 'id' must follow format 'USER###' (e.g., 'USER001', 'USER123')'' data)
    (Inr (True, None)))))))"

text \<open>
  \<^verbatim>\<open>
  def check_duplicate_id(entity_type, entity_id, exclude_id=None):
      collections = {'organization': SAMPLE_ORGANIZATIONS, 'user': SAMPLE_USERS,
                     'profile': SAMPLE_PROFILES}
      if entity_type not in collections:
          return False, f"Invalid entity type: {entity_type}"
      collection = collections[entity_type]
      existing_entity = next((item for item in collection
                              if item["id"] == entity_id and item["id"] != exclude_id), None)
      if existing_entity:
          return False, f"{entity_type.capitalize()} with ID '{entity_id}' already exists"
      return True, None
  \<close>
\<close>

fun find_duplicate :: "pydict list \<Rightarrow> json \<Rightarrow> json \<Rightarrow> py_error + pydict option" where
  "find_duplicate [] entity_id exclude_id = Inr None"
| "find_duplicate (item # rest) entity_id exclude_id =
     ebind (dict_getitem item ''id'') (\<lambda>i.
       if i = entity_id \<and> i \<noteq> exclude_id then Inr (Some item)
       else find_duplicate rest entity_id exclude_id)"

definition check_duplicate_id :: "server_state \<Rightarrow> string \<Rightarrow> json \<Rightarrow> json \<Rightarrow> py_error + validation" where
  "check_duplicate_id st entity_type entity_id exclude_id =
     (let collections = [(''organization'', SAMPLE_ORGANIZATIONS st),
                         (''user'', SAMPLE_USERS st),
                         (''profile'', SAMPLE_PROFILES st)]
      in case map_of collections entity_type of
           None \<Rightarrow> Inr (False, Some (''Invalid entity type: '' @ entity_type))
         | Some collection \<Rightarrow>
             ebind (find_duplicate collection entity_id exclude_id) (\<lambda>existing_entity.
               if (case existing_entity of None \<Rightarrow> False | Some item \<Rightarrow> truthy (JObj item))
               then Inr (False, Some (py_capitalize entity_type @ '' with ID '' @ [CHR 0x27]
                                      @ py_str entity_id @ [CHR 0x27] @ '' already exists''))
               else Inr (True, None)))"

text \<open>
  \<^verbatim>\<open>
  def validate_batch_operations(operations):
      if not isinstance(operations, list):
          return False, "Field 'operations' must be an array"
      if len(operations) == 0:
          return False, "Field 'operations' cannot be empty"
      if len(operations) > 50:
          return False, "Batch operations limited to 50 items per request"
      for i, op in enumerate(operations):
          if not isinstance(op, dict):
              return False, f"Operation {i+1}: must be a valid object"
          if 'action' not in op:
              return False, f"Operation {i+1}: field 'action' is required"
          if op['action'] not in ['create', 'update', 'delete']:
              return False, f"Operation {i+1}: field 'action' must be one of: create, update, delete"
          if 'data' not in op:
              return False, f"Operation {i+1}: field 'data' is required"
          if not isinstance(op['data'], dict):
              return False, f"Operation {i+1}: field 'data' must be a valid object"
      return True, None
  \<close>
  \<open>operation_prefix i\<close> is the text \<^verbatim>\<open>f"Operation {i+1}: "\<close>.
\<close>

definition operation_prefix :: "nat \<Rightarrow> string" where
  "operation_prefix i = ''Operation '' @ str_int (int i + 1) @ '': ''"

fun validate_operations_loop :: "json list \<Rightarrow> nat \<Rightarrow> validation" where
  "validate_operations_loop [] i = (True, None)"
| "validate_operations_loop (op # rest) i =
     (case op of
        JObj d \<Rightarrow>
          if \<not> dict_has d ''action''
          then (False, Some (operation_prefix i @ ''field 'action' is required''))
          else if dict_get d ''action'' JNull \<notin> set [JStr ''create'', JStr ''update'', JStr ''delete'']
          then (False, Some (operation_prefix i
                             @ ''field 'action' must be one of: create, update, delete''))
          else if \<not> dict_has d ''data''
          then (False, Some (operation_prefix i @ ''field 'data' is required''))
          else if \<not> is_mapping (dict_get d ''data'' JNull)
          then (False, Some (operation_prefix i @ ''field 'data' must be a valid object''))
          else validate_operations_loop rest (Suc i)
      | _ \<Rightarrow> (False, Some (operation_prefix i @ ''must be a valid object'')))"

definition validate_batch_operations :: "json \<Rightarrow> validation" where
  "validate_batch_operations operations =
     (case operations of
        JList ops \<Rightarrow>
          if length ops = 0 then (False, Some ''Field 'operations' cannot be empty'')
          else if length ops > 50
          then (False, Some ''Batch operations limited to 50 items per request'')
          else validate_operations_loop ops 0
      | _ \<Rightarrow> (False, Some ''Field 'operations' must be an array''))"

section \<open>Creating an entity\<close>

text \<open>
  \<^verbatim>\<open>
  # Auto-generate ID
  org_id = f"ORG{len(SAMPLE_ORGANIZATIONS) + 1:03d}"
  # Ensure auto-generated ID doesn't conflict
  while any(org["id"] == org_id for org in SAMPLE_ORGANIZATIONS):
      org_id = f"ORG{len(SAMPLE_ORGANIZATIONS) + 2:03d}"
  \<close>
  The same lines, with \<^verbatim>\<open>USER\<close> and \<^verbatim>\<open>SAMPLE_USERS\<close>, or \<^verbatim>\<open>PROF\<close> and
  \<^verbatim>\<open>SAMPLE_PROFILES\<close>, stand in \<^verbatim>\<open>handle_organizations\<close>, \<^verbatim>\<open>handle_users\<close>,
  \<^verbatim>\<open>handle_profiles\<close>, \<^verbatim>\<open>batch_organizations\<close> and \<^verbatim>\<open>batch_users\<close>. The loop may
  run forever: \<open>None\<close> is the run that does not return.
\<close>

fun any_id_is :: "pydict list \<Rightarrow> string \<Rightarrow> py_error + bool" where
  "any_id_is [] candidate = Inr False"
| "any_id_is (item # rest) candidate =
     ebind (dict_getitem item ''id'') (\<lambda>i.
       if i = JStr candidate then Inr True else any_id_is rest candidate)"

partial_function (option) auto_id_loop ::
    "string \<Rightarrow> pydict list \<Rightarrow> string \<Rightarrow> (py_error + string) option" where
  "auto_id_loop tag collection candidate =
     (case any_id_is collection candidate of
        Inl e \<Rightarrow> Some (Inl e)
      | Inr conflict \<Rightarrow>
          if conflict then auto_id_loop tag collection (tag @ fmt03d (length collection + 2))
          else Some (Inr candidate))"

declare auto_id_loop.simps [code]

definition auto_generate_id :: "string \<Rightarrow> pydict list \<Rightarrow> (py_error + string) option" where
  "auto_generate_id tag collection =
     auto_id_loop tag collection (tag @ fmt03d (length collection + 1))"

text \<open>
  The lines that assign the id, shared by the three kinds of entity:
  \<^verbatim>\<open>
  provided_id = data.get('id')
  if provided_id:
      is_valid, error_msg = check_duplicate_id('organization', provided_id)
      if not is_valid: (the caller answers 409, the batch appends an error)
      org_id = provided_id
  else:
      (auto-generate)
  \<close>
  A creation ends in one of three ways besides an exception and a run that does not
  return: the data is invalid, the id is taken, or the record is appended.
\<close>

datatype creation = Invalid "string option" | Duplicate "string option" | Created pydict

definition assign_id ::
    "server_state \<Rightarrow> string \<Rightarrow> string \<Rightarrow> pydict list \<Rightarrow> json
       \<Rightarrow> (py_error + string option + json) option" where
  "assign_id st entity_type tag collection data =
     (case py_get data ''id'' JNull of
        Inl e \<Rightarrow> Some (Inl e)
      | Inr provided_id \<Rightarrow>
          if truthy provided_id
          then (case check_duplicate_id st entity_type provided_id JNull of
                  Inl e \<Rightarrow> Some (Inl e)
                | Inr (is_valid, error_msg) \<Rightarrow>
                    if \<not> is_valid then Some (Inr (Inl error_msg))
                    else Some (Inr (Inr provided_id)))
          else (case auto_generate_id tag collection of
                  None \<Rightarrow> None
                | Some (Inl e) \<Rightarrow> Some (Inl e)
                | Some (Inr generated) \<Rightarrow> Some (Inr (Inr (JStr generated)))))"

definition new_metadata :: "string \<Rightarrow> string \<Rightarrow> json" where
  "new_metadata created updated =
     JObj [(''created_at'', JStr created), (''updated_at'', JStr updated),
           (''version'', JStr ''1.0.0'')]"

text \<open>
  \<^verbatim>\<open>
  new_org = {"id": org_id, "name": data['name'], "type": data['type'],
             "metadata": {"created_at": datetime.utcnow().isoformat(),
                          "updated_at": datetime.utcnow().isoformat(), "version": "1.0.0"}}
  SAMPLE_ORGANIZATIONS.append(new_org)
  \<close>
\<close>

definition append_organization ::
    "(nat \<Rightarrow> string) \<Rightarrow> json \<Rightarrow> json \<Rightarrow> server_state \<Rightarrow> py_error + creation \<times> server_state" where
  "append_organization clock data org_id st =
     ebind (py_getitem data ''name'') (\<lambda>name.
     ebind (py_getitem data ''type'') (\<lambda>org_type.
       let (created, st1) = utcnow_isoformat clock st;
           (updated, st2) = utcnow_isoformat clock st1;
           new_org = [(''id'', org_id), (''name'', name), (''type'', org_type),
                      (''metadata'', new_metadata created updated)]
       in Inr (Created new_org,
               st2\<lparr>SAMPLE_ORGANIZATIONS := SAMPLE_ORGANIZATIONS st2 @ [new_org]\<rparr>)))"

definition create_organization ::
    "(nat \<Rightarrow> string) \<Rightarrow> json \<Rightarrow> server_state \<Rightarrow> (py_error + creation \<times> server_state) option" where
  "create_organization clock data st =
     (case validate_organization_data data False of
        Inl e \<Rightarrow> Some (Inl e)
      | Inr (is_valid, error_msg) \<Rightarrow>
          if \<not> is_valid then Some (Inr (Invalid error_msg, st))
          else (case assign_id st ''organization'' ''ORG'' (SAMPLE_ORGANIZATIONS st) data of
                  None \<Rightarrow> None
                | Some (Inl e) \<Rightarrow> Some (Inl e)
                | Some (Inr (Inl error_msg)) \<Rightarrow> Some (Inr (Duplicate error_msg, st))
                | Some (Inr (Inr org_id)) \<Rightarrow> Some (append_organization clock data org_id st)))"

text \<open>
  \<^verbatim>\<open>
  new_user = {"id": user_id, "name": data['name'], "email": data['email'],
              "organization_id": data.get('organization_id'),
              "profile_id": f"PROF{len(SAMPLE_PROFILES) + 1:03d}",
              "metadata": {...}}
  SAMPLE_USERS.append(new_user)
  \<close>
\<close>

definition append_user ::
    "(nat \<Rightarrow> string) \<Rightarrow> json \<Rightarrow> json \<Rightarrow> server_state \<Rightarrow> py_error + creation \<times> server_state" where
  "append_user clock data user_id st =
     ebind (py_getitem data ''name'') (\<lambda>name.
     ebind (py_getitem data ''email'') (\<lambda>email.
     ebind (py_get data ''organization_id'' JNull) (\<lambda>organization_id.
       let profile_id = ''PROF'' @ fmt03d (length (SAMPLE_PROFILES st) + 1);
           (created, st1) = utcnow_isoformat clock st;
           (updated, st2) = utcnow_isoformat clock st1;
           new_user = [(''id'', user_id), (''name'', name), (''email'', email),
                       (''organization_id'', organization_id),
                       (''profile_id'', JStr profile_id),
                       (''metadata'', new_metadata created updated)]
       in Inr (Created new_user, st2\<lparr>SAMPLE_USERS := SAMPLE_USERS st2 @ [new_user]\<rparr>))))"

definition create_user ::
    "(nat \<Rightarrow> string) \<Rightarrow> json \<Rightarrow> server_state \<Rightarrow> (py_error + creation \<times> server_state) option" where
  "create_user clock data st =
     (case validate_user_data st data False JNull of
        Inl e \<Rightarrow> Some (Inl e)
      | Inr (is_valid, error_msg) \<Rightarrow>
          if \<not> is_valid then Some (Inr (Invalid error_msg, st))
          else (case assign_id st ''user'' ''USER'' (SAMPLE_USERS st) data of
                  None \<Rightarrow> None
                | Some (Inl e) \<Rightarrow> Some (Inl e)
                | Some (Inr (Inl error_msg)) \<Rightarrow> Some (Inr (Duplicate error_msg, st))
                | Some (Inr (Inr user_id)) \<Rightarrow> Some (append_user clock data user_id st)))"

text \<open>
  \<^verbatim>\<open>
  new_profile = {"id": profile_id, "name": data['name'],
                 "settings": data.get('settings', {}),
                 "preferences": data.get('preferences', {}), "metadata": {...}}
  SAMPLE_PROFILES.append(new_profile)
  \<close>
\<close>

definition append_profile ::
    "(nat \<Rightarrow> string) \<Rightarrow> json \<Rightarrow> json \<Rightarrow> server_state \<Rightarrow> py_error + creation \<times> server_state" where
  "append_profile clock data profile_id st =
     ebind (py_getitem data ''name'') (\<lambda>name.
     ebind (py_get data ''settings'' (JObj [])) (\<lambda>settings.
     ebind (py_get data ''preferences'' (JObj [])) (\<lambda>preferences.
       let (created, st1) = utcnow_isoformat clock st;
           (updated, st2) = utcnow_isoformat clock st1;
           new_profile = [(''id'', profile_id), (''name'', name), (''settings'', settings),
                          (''preferences'', preferences),
                          (''metadata'', new_metadata created updated)]
       in Inr (Created new_profile,
               st2\<lparr>SAMPLE_PROFILES := SAMPLE_PROFILES st2 @ [new_profile]\<rparr>))))"

definition create_profile ::
    "(nat \<Rightarrow> string) \<Rightarrow> json \<Rightarrow> server_state \<Rightarrow> (py_error + creation \<times> server_state) option" where
  "create_profile clock data st =
     (case validate_profile_data data False of
        Inl e \<Rightarrow> Some (Inl e)
      | Inr (is_valid, error_msg) \<Rightarrow>
          if \<not> is_valid then Some (Inr (Invalid error_msg, st))
          else (case assign_id st ''profile'' ''PROF'' (SAMPLE_PROFILES st) data of
                  None \<Rightarrow> None
                | Some (Inl e) \<Rightarrow> Some (Inl e)
                | Some (Inr (Inl error_msg)) \<Rightarrow> Some (Inr (Duplicate error_msg, st))
                | Some (Inr (Inr profile_id)) \<Rightarrow> Some (append_profile clock data profile_id st)))"

section \<open>Handlers\<close>

text \<open>
  A handler returns a body and a status; an exception that leaves it is \<open>Unhandled\<close>
  (the framework answers 500, or 400 for \<open>BadRequest\<close>). The request body is
  \<open>None\<close> when \<^verbatim>\<open>request.get_json()\<close> raises. An error message that is \<^verbatim>\<open>None\<close> is the
  JSON null in a body and the text \<^verbatim>\<open>None\<close> in a formatted string.
\<close>

datatype response = Response nat json | Unhandled py_error

definition message_json :: "string option \<Rightarrow> json" where
  "message_json m = (case m of None \<Rightarrow> JNull | Some s \<Rightarrow> JStr s)"

definition error_body :: "string option \<Rightarrow> json" where
  "error_body m = JObj [(''error'', message_json m)]"

text \<open>
  The \<^verbatim>\<open>POST\<close> branch of \<^verbatim>\<open>handle_organizations\<close>, \<^verbatim>\<open>handle_users\<close> and
  \<^verbatim>\<open>handle_profiles\<close>:
  \<^verbatim>\<open>
  try:
      data = request.get_json()
  except Exception:
      return jsonify({"error": "Invalid JSON in request body"}), 400
  is_valid, error_msg = validate_json_payload(data)
  if not is_valid:
      return jsonify({"error": error_msg}), 400
  is_valid, error_msg = validate_organization_data(data)
  if not is_valid:
      return jsonify({"error": error_msg}), 400
  (assign the id; a duplicate answers 409)
  (build and append the record)
  return jsonify(new_org), 201
  \<close>
\<close>

definition handle_post ::
    "(json \<Rightarrow> server_state \<Rightarrow> (py_error + creation \<times> server_state) option)
       \<Rightarrow> json option \<Rightarrow> server_state \<Rightarrow> (response \<times> server_state) option" where
  "handle_post create body st =
     (case body of
        None \<Rightarrow> Some (Response 400 (error_body (Some ''Invalid JSON in request body'')), st)
      | Some data \<Rightarrow>
          (case validate_json_payload data of
             (is_valid, error_msg) \<Rightarrow>
               if \<not> is_valid then Some (Response 400 (error_body error_msg), st)
               else (case create data st of
                       None \<Rightarrow> None
                     | Some (Inl e) \<Rightarrow> Some (Unhandled e, st)
                     | Some (Inr (Invalid error_msg, st')) \<Rightarrow>
                         Some (Response 400 (error_body error_msg), st')
                     | Some (Inr (Duplicate error_msg, st')) \<Rightarrow>
                         Some (Response 409 (error_body error_msg), st')
                     | Some (Inr (Created record, st')) \<Rightarrow>
                         Some (Response 201 (JObj record), st'))))"

definition handle_organizations_post ::
    "(nat \<Rightarrow> string) \<Rightarrow> json option \<Rightarrow> server_state \<Rightarrow> (response \<times> server_state) option" where
  "handle_organizations_post clock body st = handle_post (create_organization clock) body st"

definition handle_users_post ::
    "(nat \<Rightarrow> string) \<Rightarrow> json option \<Rightarrow> server_state \<Rightarrow> (response \<times> server_state) option" where
  "handle_users_post clock body st = handle_post (create_user clock) body st"

definition handle_profiles_post ::
    "(nat \<Rightarrow> string) \<Rightarrow> json option \<Rightarrow> server_state \<Rightarrow> (response \<times> server_state) option" where
  "handle_profiles_post clock body st = handle_post (create_profile clock) body st"

text \<open>
  \<^verbatim>\<open>
  def handle_user(user_id):
      user = next((user for user in SAMPLE_USERS if user["id"] == user_id), None)
      if not user:
          return jsonify({"error": "User not found"}), 404
      if request.method == 'DELETE':
          SAMPLE_USERS.remove(user)
          return '', 204
      if request.method == 'PUT':
          data = request.get_json()
          user.update({
              "name": data.get('name', user['name']),
              "email": data.get('email', user['email']),
              "organization_id": data.get('organization_id', user['organization_id']),
              "metadata": {**user['metadata'], "updated_at": datetime.utcnow().isoformat()}
          })
          return jsonify(user)
  \<close>
  The two methods that change the collection are modelled here; \<^verbatim>\<open>GET\<close>, which stores
  a reference to the organization in the user, is modelled further on, on the records as
  objects of a store (\<open>get_user\<close>). \<open>find_index\<close> gives the place of
  the record found by \<^verbatim>\<open>next\<close>, which the update changes in place. \<^verbatim>\<open>list.remove\<close> takes
  out the first entry equal to the record.
\<close>

datatype mutation = PUT "json option" | DELETE

fun find_index :: "pydict list \<Rightarrow> string \<Rightarrow> py_error + nat option" where
  "find_index [] entity_id = Inr None"
| "find_index (item # rest) entity_id =
     ebind (dict_getitem item ''id'') (\<lambda>i.
       if i = JStr entity_id then Inr (Some 0)
       else ebind (find_index rest entity_id) (\<lambda>r. Inr (map_option Suc r)))"

definition field_or_current :: "pydict \<Rightarrow> pydict \<Rightarrow> string \<Rightarrow> py_error + json" where
  "field_or_current data record field =
     ebind (dict_getitem record field) (\<lambda>current. Inr (dict_get data field current))"

definition refreshed_metadata ::
    "(nat \<Rightarrow> string) \<Rightarrow> pydict \<Rightarrow> server_state \<Rightarrow> py_error + json \<times> server_state" where
  "refreshed_metadata clock record st =
     ebind (dict_getitem record ''metadata'') (\<lambda>metadata.
       case metadata of
         JObj m \<Rightarrow>
           (let (updated, st1) = utcnow_isoformat clock st
            in Inr (JObj (dict_set m ''updated_at'' (JStr updated)), st1))
       | _ \<Rightarrow> Inl (TypeError ([CHR 0x27] @ py_type_name metadata @ [CHR 0x27]
                               @ '' object is not a mapping'')))"

definition update_user ::
    "(nat \<Rightarrow> string) \<Rightarrow> json \<Rightarrow> pydict \<Rightarrow> server_state \<Rightarrow> py_error + pydict \<times> server_state" where
  "update_user clock data user st =
     (case data of
        JObj d \<Rightarrow>
          ebind (field_or_current d user ''name'') (\<lambda>name.
          ebind (field_or_current d user ''email'') (\<lambda>email.
          ebind (field_or_current d user ''organization_id'') (\<lambda>organization_id.
          ebind (refreshed_metadata clock user st) (\<lambda>(metadata, st1).
            Inr (dict_update user [(''name'', name), (''email'', email),
                                   (''organization_id'', organization_id),
                                   (''metadata'', metadata)], st1)))))
      | _ \<Rightarrow> Inl (no_attribute_get data))"

definition handle_user ::
    "(nat \<Rightarrow> string) \<Rightarrow> string \<Rightarrow> mutation \<Rightarrow> server_state \<Rightarrow> response \<times> server_state" where
  "handle_user clock user_id request st =
     (case find_index (SAMPLE_USERS st) user_id of
        Inl e \<Rightarrow> (Unhandled e, st)
      | Inr None \<Rightarrow> (Response 404 (error_body (Some ''User not found'')), st)
      | Inr (Some n) \<Rightarrow>
          (let user = SAMPLE_USERS st ! n in
           if \<not> truthy (JObj user)
           then (Response 404 (error_body (Some ''User not found'')), st)
           else case request of
                  DELETE \<Rightarrow>
                    (Response 204 (JStr []), st\<lparr>SAMPLE_USERS := remove1 user (SAMPLE_USERS st)\<rparr>)
                | PUT None \<Rightarrow> (Unhandled BadRequest, st)
                | PUT (Some data) \<Rightarrow>
                    (case update_user clock data user st of
                       Inl e \<Rightarrow> (Unhandled e, st)
                     | Inr (user', st1) \<Rightarrow>
                         (Response 200 (JObj user'),
                          st1\<lparr>SAMPLE_USERS := (SAMPLE_USERS st1)[n := user']\<rparr>))))"

text \<open>
  \<^verbatim>\<open>
  def handle_organization(org_id):
      org = next((org for org in SAMPLE_ORGANIZATIONS if org["id"] == org_id), None)
      if not org:
          return jsonify({"error": "Organization not found"}), 404
      if request.method == 'DELETE':
          SAMPLE_ORGANIZATIONS.remove(org)
          return '', 204
      if request.method == 'PUT':
          data = request.get_json()
          org.update({
              "name": data.get('name', org['name']),
              "type": data.get('type', org['type']),
              "metadata": {**org['metadata'], "updated_at": datetime.utcnow().isoformat()}
          })
          return jsonify(org)
  \<close>
\<close>

definition update_organization ::
    "(nat \<Rightarrow> string) \<Rightarrow> json \<Rightarrow> pydict \<Rightarrow> server_state \<Rightarrow> py_error + pydict \<times> server_state" where
  "update_organization clock data org st =
     (case data of
        JObj d \<Rightarrow>
          ebind (field_or_current d org ''name'') (\<lambda>name.
          ebind (field_or_current d org ''type'') (\<lambda>org_type.
          ebind (refreshed_metadata clock org st) (\<lambda>(metadata, st1).
            Inr (dict_update org [(''name'', name), (''type'', org_type),
                                  (''metadata'', metadata)], st1))))
      | _ \<Rightarrow> Inl (no_attribute_get data))"

definition handle_organization ::
    "(nat \<Rightarrow> string) \<Rightarrow> string \<Rightarrow> mutation \<Rightarrow> server_state \<Rightarrow> response \<times> server_state" where
  "handle_organization clock org_id request st =
     (case find_index (SAMPLE_ORGANIZATIONS st) org_id of
        Inl e \<Rightarrow> (Unhandled e, st)
      | Inr None \<Rightarrow> (Response 404 (error_body (Some ''Organization not found'')), st)
      | Inr (Some n) \<Rightarrow>
          (let org = SAMPLE_ORGANIZATIONS st ! n in
           if \<not> truthy (JObj org)
           then (Response 404 (error_body (Some ''Organization not found'')), st)
           else case request of
                  DELETE \<Rightarrow>
                    (Response 204 (JStr []),
                     st\<lparr>SAMPLE_ORGANIZATIONS := remove1 org (SAMPLE_ORGANIZATIONS st)\<rparr>)
                | PUT None \<Rightarrow> (Unhandled BadRequest, st)
                | PUT (Some data) \<Rightarrow>
                    (case update_organization clock data org st of
                       Inl e \<Rightarrow> (Unhandled e, st)
                     | Inr (org', st1) \<Rightarrow>
                         (Response 200 (JObj org'),
                          st1\<lparr>SAMPLE_ORGANIZATIONS := (SAMPLE_ORGANIZATIONS st1)[n := org']\<rparr>))))"

section \<open>Batch Executor\<close>

text \<open>
  \<^verbatim>\<open>
  def batch_organizations():
      try:
          data = request.get_json()
      except Exception:
          return jsonify({"error": "Invalid JSON in request body"}), 400
      is_valid, error_msg = validate_json_payload(data)
      if not is_valid:
          return jsonify({"error": error_msg}), 400
      operations = data.get('operations', [])
      is_valid, error_msg = validate_batch_operations(operations)
      if not is_valid:
          return jsonify({"error": error_msg}), 400
      results = []
      for i, op in enumerate(operations):
          if op['action'] == 'create':
              try:
                  is_valid, error_msg = validate_organization_data(op['data'])
                  if not is_valid:
                      results.append({"status": "error", "error": f"Operation {i+1}: {error_msg}"})
                      continue
                  (assign the id; a duplicate appends the same kind of error and continues)
                  (build and append the record)
                  results.append({"status": "success", "data": new_org})
              except Exception as e:
                  results.append({"status": "error", "error": f"Operation {i+1}: {str(e)}"})
      return jsonify({"results": results})
  \<close>
  \<^verbatim>\<open>batch_users\<close> is the same text with the user validator and the user record. The body
  of the loop has one branch, for the action \<^verbatim>\<open>create\<close>.
\<close>

definition error_entry :: "nat \<Rightarrow> string \<Rightarrow> json" where
  "error_entry i msg =
     JObj [(''status'', JStr ''error''), (''error'', JStr (operation_prefix i @ msg))]"

definition success_entry :: "pydict \<Rightarrow> json" where
  "success_entry record = JObj [(''status'', JStr ''success''), (''data'', JObj record)]"

definition message_str :: "string option \<Rightarrow> string" where
  "message_str m = (case m of None \<Rightarrow> ''None'' | Some s \<Rightarrow> s)"

text \<open>The \<^verbatim>\<open>try\<close> block for one operation: the entry it appends and the state it leaves.\<close>

definition batch_create ::
    "(json \<Rightarrow> server_state \<Rightarrow> (py_error + creation \<times> server_state) option)
       \<Rightarrow> nat \<Rightarrow> json \<Rightarrow> server_state \<Rightarrow> (json \<times> server_state) option" where
  "batch_create create i op st =
     (case py_getitem op ''data'' of
        Inl e \<Rightarrow> Some (error_entry i (exc_str e), st)
      | Inr data \<Rightarrow>
          (case create data st of
             None \<Rightarrow> None
           | Some (Inl e) \<Rightarrow> Some (error_entry i (exc_str e), st)
           | Some (Inr (Invalid error_msg, st')) \<Rightarrow> Some (error_entry i (message_str error_msg), st')
           | Some (Inr (Duplicate error_msg, st')) \<Rightarrow> Some (error_entry i (message_str error_msg), st')
           | Some (Inr (Created record, st')) \<Rightarrow> Some (success_entry record, st')))"

fun batch_loop ::
    "(json \<Rightarrow> server_state \<Rightarrow> (py_error + creation \<times> server_state) option)
       \<Rightarrow> json list \<Rightarrow> nat \<Rightarrow> json list \<Rightarrow> server_state
       \<Rightarrow> (py_error + json list \<times> server_state) option" where
  "batch_loop create [] i results st = Some (Inr (results, st))"
| "batch_loop create (op # rest) i results st =
     (case py_getitem op ''action'' of
        Inl e \<Rightarrow> Some (Inl e)
      | Inr action \<Rightarrow>
          if action = JStr ''create''
          then (case batch_create create i op st of
                  None \<Rightarrow> None
                | Some (entry, st') \<Rightarrow> batch_loop create rest (Suc i) (results @ [entry]) st')
          else batch_loop create rest (Suc i) results st)"

definition batch_endpoint ::
    "(json \<Rightarrow> server_state \<Rightarrow> (py_error + creation \<times> server_state) option)
       \<Rightarrow> json option \<Rightarrow> server_state \<Rightarrow> (response \<times> server_state) option" where
  "batch_endpoint create body st =
     (case body of
        None \<Rightarrow> Some (Response 400 (error_body (Some ''Invalid JSON in request body'')), st)
      | Some data \<Rightarrow>
          (case validate_json_payload data of
             (is_valid, error_msg) \<Rightarrow>
               if \<not> is_valid then Some (Response 400 (error_body error_msg), st)
               else (case py_get data ''operations'' (JList []) of
                       Inl e \<Rightarrow> Some (Unhandled e, st)
                     | Inr operations \<Rightarrow>
                         (case validate_batch_operations operations of
                            (is_valid, error_msg) \<Rightarrow>
                              if \<not> is_valid then Some (Response 400 (error_body error_msg), st)
                              else (case operations of
                                      JList ops \<Rightarrow>
                                        (case batch_loop create ops 0 [] st of
                                           None \<Rightarrow> None
                                         | Some (Inl e) \<Rightarrow> Some (Unhandled e, st)
                                         | Some (Inr (results, st')) \<Rightarrow>
                                             Some (Response 200 (JObj [(''results'', JList results)]),
                                                   st'))
                                    | _ \<Rightarrow> Some (Unhandled (not_iterable operations), st))))))"

definition batch_organizations ::
    "(nat \<Rightarrow> string) \<Rightarrow> json option \<Rightarrow> server_state \<Rightarrow> (response \<times> server_state) option" where
  "batch_organizations clock body st = batch_endpoint (create_organization clock) body st"

definition batch_users ::
    "(nat \<Rightarrow> string) \<Rightarrow> json option \<Rightarrow> server_state \<Rightarrow> (response \<times> server_state) option" where
  "batch_users clock body st = batch_endpoint (create_user clock) body st"

text \<open>The results list of a response, when it has one.\<close>

definition response_results :: "response \<Rightarrow> json list option" where
  "response_results r =
     (case r of
        Response status (JObj body) \<Rightarrow>
          (case map_of body ''results'' of Some (JList results) \<Rightarrow> Some results | _ \<Rightarrow> None)
      | _ \<Rightarrow> None)"

section \<open>The generated data\<close>

text \<open>
  \<^verbatim>\<open>
  def create_sample_data():
      for i in range(1, 11):
          org_id = f"ORG{i:03d}"
          organizations.append({"id": org_id, "name": f"Test Organization {i}", "type": "test",
                                "metadata": {...}})
          for j in range(1, 11):
              user_id = f"USER{i:03d}_{j:03d}"
              profile = create_nested_profile()
              profile_id = f"PROF{i:03d}_{j:03d}"
              profile["id"] = profile_id
              profiles.append(profile)
              users.append({"id": user_id, "name": f"Test User {i}-{j}",
                            "email": f"test{i}_{j}@example.com", "organization_id": org_id,
                            "profile_id": profile_id, "metadata": {...}})
      return organizations, users, profiles
  \<close>
\<close>

definition sample_organization :: "nat \<Rightarrow> pydict" where
  "sample_organization i =
     [(''id'', JStr (''ORG'' @ fmt03d i)),
      (''name'', JStr (''Test Organization '' @ str_int (int i))),
      (''type'', JStr ''test''),
      (''metadata'', fixture_metadata)]"

definition sample_user :: "nat \<Rightarrow> nat \<Rightarrow> pydict" where
  "sample_user i j =
     [(''id'', JStr (''USER'' @ fmt03d i @ ''_'' @ fmt03d j)),
      (''name'', JStr (''Test User '' @ str_int (int i) @ ''-'' @ str_int (int j))),
      (''email'', JStr (''test'' @ str_int (int i) @ ''_'' @ str_int (int j) @ ''@example.com'')),
      (''organization_id'', JStr (''ORG'' @ fmt03d i)),
      (''profile_id'', JStr (''PROF'' @ fmt03d i @ ''_'' @ fmt03d j)),
      (''metadata'', fixture_metadata)]"

definition sample_profile :: "nat \<Rightarrow> nat \<Rightarrow> pydict" where
  "sample_profile i j =
     (case create_nested_profile 10 of
        Some profile \<Rightarrow> dict_set profile ''id'' (JStr (''PROF'' @ fmt03d i @ ''_'' @ fmt03d j))
      | None \<Rightarrow> [])"

definition create_sample_data :: server_state where
  "create_sample_data =
     \<lparr>SAMPLE_ORGANIZATIONS = map sample_organization [1..<11],
      SAMPLE_USERS = concat (map (\<lambda>i. map (sample_user i) [1..<11]) [1..<11]),
      SAMPLE_PROFILES = concat (map (\<lambda>i. map (sample_profile i) [1..<11]) [1..<11]),
      clock_readings = 0\<rparr>"

text \<open>A clock for examples: the n-th reading is the text \<^verbatim>\<open>t\<close> followed by n.\<close>

definition example_clock :: "nat \<Rightarrow> string" where
  "example_clock n = ''t'' @ str_int (int n)"

text \<open>The emails of the users, and their being pairwise distinct.\<close>

definition user_emails :: "server_state \<Rightarrow> json list" where
  "user_emails st = map (\<lambda>user. dict_get user ''email'' JNull) (SAMPLE_USERS st)"

definition emails_unique :: "server_state \<Rightarrow> bool" where
  "emails_unique st = distinct (user_emails st)"

text \<open>
  The shape of a batch operation that \<open>validate_batch_operations\<close> accepts, and the shape
  of one that has a valid action and no \<^verbatim>\<open>data\<close> field.
\<close>

definition valid_action :: "pydict \<Rightarrow> bool" where
  "valid_action d =
     (dict_has d ''action''
      \<and> dict_get d ''action'' JNull \<in> set [JStr ''create'', JStr ''update'', JStr ''delete''])"

definition structurally_valid :: "json \<Rightarrow> bool" where
  "structurally_valid op =
     (case op of
        JObj d \<Rightarrow> valid_action d \<and> dict_has d ''data'' \<and> is_mapping (dict_get d ''data'' JNull)
      | _ \<Rightarrow> False)"

definition missing_data :: "json \<Rightarrow> bool" where
  "missing_data op =
     (case op of
        JObj d \<Rightarrow> valid_action d \<and> \<not> dict_has d ''data''
      | _ \<Rightarrow> False)"

text \<open>
  Example requests: a batch of three operations whose second has no \<^verbatim>\<open>data\<close> field, a
  batch of one \<^verbatim>\<open>delete\<close> operation, an update of a user's email to the email of another
  user, and the creation of an organization without an id after \<^verbatim>\<open>ORG001\<close> and
  \<^verbatim>\<open>ORG002\<close> have been deleted.
\<close>

definition example_batch_request :: json where
  "example_batch_request =
     JObj [(''operations'', JList
       [JObj [(''action'', JStr ''create''),
              (''data'', JObj [(''name'', JStr ''Alpha''), (''type'', JStr ''test'')])],
        JObj [(''action'', JStr ''create'')],
        JObj [(''action'', JStr ''create''),
              (''data'', JObj [(''name'', JStr ''Beta''), (''type'', JStr ''startup'')])]])]"

definition example_delete_request :: json where
  "example_delete_request =
     JObj [(''operations'', JList
       [JObj [(''action'', JStr ''delete''), (''data'', JObj [(''id'', JStr ''ORG001'')])]])]"

definition example_email_update :: json where
  "example_email_update = JObj [(''email'', JStr ''test1_2@example.com'')]"

definition example_new_organization :: json where
  "example_new_organization = JObj [(''name'', JStr ''New''), (''type'', JStr ''test'')]"

definition after_two_deletions :: server_state where
  "after_two_deletions =
     snd (handle_organization example_clock ''ORG002'' DELETE
       (snd (handle_organization example_clock ''ORG001'' DELETE create_sample_data)))"

text \<open>
  The operations of a batch that the loop executes, and the state of the user collection
  in which every stored id is present and is not \<^verbatim>\<open>None\<close> (ids are strings in every
  state the server reaches).
\<close>

definition is_create :: "json \<Rightarrow> bool" where
  "is_create op = (py_getitem op ''action'' = Inr (JStr ''create''))"

definition user_ids_set :: "server_state \<Rightarrow> bool" where
  "user_ids_set st = list_all (\<lambda>user. dict_getitem user ''id'' \<noteq> Inr JNull) (SAMPLE_USERS st)"


section \<open>The Records as Objects of a Store\<close>














section \<open>Properties of the Paginator\<close>

lemma py_slice_nonneg:
  assumes "0 \<le> i" and "0 \<le> k"
  shows "py_slice xs i (i + k) = take (nat k) (drop (nat i) xs)"
proof (cases "i \<le> int (length xs)")
  case True
  have "take (nat (min (i + k) (int (length xs)) - i)) (drop (nat i) xs)
        = take (nat k) (drop (nat i) xs)"
  proof (cases "i + k \<le> int (length xs)")
    case True
    then show ?thesis by (simp add: min_def)
  next
    case False
    with True assms have "length (drop (nat i) xs) \<le> nat (int (length xs) - i)"
      and "length (drop (nat i) xs) \<le> nat k"
      by auto
    with False show ?thesis by (simp add: min_def)
  qed
  with True assms show ?thesis
    by (simp add: py_slice_def Let_def min_def)
next
  case False
  with assms show ?thesis
    by (simp add: py_slice_def Let_def min_def)
qed

lemma ceiling_div_pos:
  fixes n s :: int
  assumes "1 \<le> s"
  shows "(n + s - 1) div s = \<lceil>real_of_int n / real_of_int s\<rceil>"
proof -
  have "\<lceil>real_of_int n / real_of_int s\<rceil> = - \<lfloor>real_of_int (- n) / real_of_int s\<rfloor>"
    by (simp add: ceiling_def)
  also have "\<dots> = - ((- n) div s)"
    by (simp only: floor_divide_of_int_eq)
  also have "\<dots> = (n + s - 1) div s"
  proof -
    define q where "q = (- n) div s"
    define r where "r = (- n) mod s"
    have n: "- n = q * s + r" by (simp add: q_def r_def)
    have r: "0 \<le> r" "r < s" using assms by (simp_all add: r_def)
    have "n + s - 1 = (- q) * s + (s - 1 - r)" using n by (simp add: algebra_simps)
    moreover have "0 \<le> s - 1 - r" "s - 1 - r < s" using r by simp_all
    ultimately have "(n + s - 1) div s = - q"
      by (metis div_mult_self3  div_pos_pos_trivial add.right_neutral assms not_one_le_zero)
    then show ?thesis by (simp add: q_def)
  qed
  finally show ?thesis by simp
qed

lemma paginate_data_eq:
  assumes "1 \<le> p" and "1 \<le> s"
  shows "paginate_data xs p s =
     Inr (JObj [(''items'', JList (take (nat s) (drop (nat ((p - 1) * s)) xs))),
                (''total'', JInt (int (length xs))),
                (''page'', JInt p),
                (''per_page'', JInt s),
                (''total_pages'', JInt \<lceil>real (length xs) / real_of_int s\<rceil>)])"
proof -
  from assms have "0 \<le> (p - 1) * s" by simp
  with assms have "py_slice xs ((p - 1) * s) ((p - 1) * s + s)
      = take (nat s) (drop (nat ((p - 1) * s)) xs)"
    by (intro py_slice_nonneg) simp_all
  moreover have "(int (length xs) + s - 1) div s = \<lceil>real (length xs) / real_of_int s\<rceil>"
    using ceiling_div_pos [OF assms(2), of "int (length xs)"] by simp
  ultimately show ?thesis
    using assms by (simp add: paginate_data_def Let_def)
qed

lemma page_items_eq:
  assumes "1 \<le> p" and "1 \<le> s"
  shows "page_items (paginate_data xs p s) = take (nat s) (drop (nat ((p - 1) * s)) xs)"
  by (simp add: paginate_data_eq [OF assms] page_items_def)

lemma page_total_pages_eq:
  assumes "1 \<le> p" and "1 \<le> s"
  shows "page_total_pages (paginate_data xs p s) = \<lceil>real (length xs) / real_of_int s\<rceil>"
  by (simp add: paginate_data_eq [OF assms] page_total_pages_def)

text \<open>
  Claim C5. For every sequence, every page number \<open>p \<ge> 1\<close> and every page size
  \<open>s \<ge> 1\<close>, \<open>paginate_data\<close> returns without error the page descriptor whose items
  are the slice from index \<open>(p - 1) * s\<close> (inclusive) to \<open>p * s\<close> (exclusive) of the
  sequence, that is the first \<open>s\<close> items left after dropping \<open>(p - 1) * s\<close>, whose total
  is the length of the sequence, whose page and per_page echo the arguments, and whose
  total_pages is the ceiling of total / s. The items are empty when \<open>(p - 1) * s\<close> is at
  or beyond the end of the sequence.
\<close>

theorem paginate_data_slice:
  assumes "1 \<le> p" and "1 \<le> s"
  shows "paginate_data xs p s =
           Inr (JObj [(''items'', JList (take (nat s) (drop (nat ((p - 1) * s)) xs))),
                      (''total'', JInt (int (length xs))),
                      (''page'', JInt p),
                      (''per_page'', JInt s),
                      (''total_pages'', JInt \<lceil>real (length xs) / real_of_int s\<rceil>)])
         \<and> (int (length xs) \<le> (p - 1) * s \<longrightarrow> page_items (paginate_data xs p s) = [])"
proof
  show "paginate_data xs p s =
           Inr (JObj [(''items'', JList (take (nat s) (drop (nat ((p - 1) * s)) xs))),
                      (''total'', JInt (int (length xs))),
                      (''page'', JInt p),
                      (''per_page'', JInt s),
                      (''total_pages'', JInt \<lceil>real (length xs) / real_of_int s\<rceil>)])"
    by (rule paginate_data_eq [OF assms])
  show "int (length xs) \<le> (p - 1) * s \<longrightarrow> page_items (paginate_data xs p s) = []"
    by (simp add: page_items_eq [OF assms])
qed

theorem paginate_data_slice_witness:
  "(1::int) \<le> 3 \<and> (1::int) \<le> 2
   \<and> int (length [JInt 10, JInt 20, JInt 30]) \<le> (3 - 1) * 2
   \<and> paginate_data [JInt 10, JInt 20, JInt 30] 3 2 =
       Inr (JObj [(''items'', JList []), (''total'', JInt 3), (''page'', JInt 3),
                  (''per_page'', JInt 2), (''total_pages'', JInt 2)])
   \<and> page_items (paginate_data [JInt 10, JInt 20, JInt 30] 3 2) = []"
proof -
  have h1: "(1::int) \<le> 3" and h2: "(1::int) \<le> 2" by simp_all
  have h3: "int (length [JInt 10, JInt 20, JInt 30]) \<le> (3 - 1) * 2" by simp
  note c = paginate_data_slice [OF h1 h2, of "[JInt 10, JInt 20, JInt 30]"]
  have A: "paginate_data [JInt 10, JInt 20, JInt 30] 3 2 =
       Inr (JObj [(''items'', JList []), (''total'', JInt 3), (''page'', JInt 3),
                  (''per_page'', JInt 2), (''total_pages'', JInt 2)])"
    using conjunct1 [OF c] by simp
  have B: "page_items (paginate_data [JInt 10, JInt 20, JInt 30] 3 2) = []"
    using conjunct2 [OF c] h3 by blast
  show ?thesis using h1 h2 h3 A B by blast
qed

lemma upto_as_upt: "[1..int n] = map (\<lambda>k. int k + 1) [0..<n]"
proof (induction n)
  case 0
  then show ?case by simp
next
  case (Suc n)
  have "[1..int (Suc n)] = [1..int n] @ [int n + 1]"
    by (simp add: upto_rec2 add.commute)
  with Suc show ?case by simp
qed

lemma concat_chunks: "concat (map (\<lambda>k. take s (drop (k * s) xs)) [0..<n]) = take (n * s) xs"
proof (induction n)
  case 0
  then show ?case by simp
next
  case (Suc n)
  have "take (n * s) xs @ take s (drop (n * s) xs) = take (n * s + s) xs"
    by (simp add: take_add)
  with Suc show ?case by (simp add: add.commute)
qed


text \<open>
  Claim C6. Pagination is a partition: for every sequence and every page size
  \<open>s \<ge> 1\<close>, the items of the pages 1 to total_pages, concatenated in this order, are
  the sequence itself; every page before the last has exactly \<open>s\<close> items and the last
  has at most \<open>s\<close>.
\<close>

theorem paginate_data_partition:
  assumes "1 \<le> s"
  shows "concat (map (\<lambda>p. page_items (paginate_data xs p s))
                     [1 .. page_total_pages (paginate_data xs 1 s)]) = xs
         \<and> (\<forall>p. 1 \<le> p \<and> p < page_total_pages (paginate_data xs 1 s)
                \<longrightarrow> length (page_items (paginate_data xs p s)) = nat s)
         \<and> length (page_items (paginate_data xs (page_total_pages (paginate_data xs 1 s)) s)) \<le> nat s"
proof -
  define t where "t = nat \<lceil>real (length xs) / real_of_int s\<rceil>"
  define m where "m = nat s"
  have m: "0 < m" "s = int m" using assms by (simp_all add: m_def)
  have "(0::real) \<le> real (length xs) / real_of_int s" using assms by simp
  then have t_nonneg: "0 \<le> \<lceil>real (length xs) / real_of_int s\<rceil>" by linarith
  have tp: "page_total_pages (paginate_data xs 1 s) = int t"
    using page_total_pages_eq [of 1 s xs] assms t_nonneg by (simp add: t_def)
  have "(int (length xs) + s - 1) div s = int t"
    using ceiling_div_pos [OF assms, of "int (length xs)"] t_nonneg by (simp add: t_def)
  moreover have "int (length xs + m - 1) = int (length xs) + s - 1"
    using m by (simp add: of_nat_diff)
  ultimately have "int ((length xs + m - 1) div m) = int t"
    using m(2) by (simp only: zdiv_int)
  then have div_t: "(length xs + m - 1) div m = t"
    by (simp only: of_nat_eq_iff)
  have cover: "length xs \<le> t * m"
  proof -
    have "length xs + m - 1 < (Suc ((length xs + m - 1) div m)) * m"
      using m(1) by (metis dividend_less_div_times mult.commute mult_Suc)
    then show ?thesis using div_t m(1) by simp
  qed
  have lower: "(t - 1) * m < length xs \<or> t = 0"
  proof (cases t)
    case 0
    then show ?thesis by simp
  next
    case (Suc t')
    have "((length xs + m - 1) div m) * m \<le> length xs + m - 1" by simp
    with div_t Suc m(1) show ?thesis by simp
  qed
  have items: "page_items (paginate_data xs (int k + 1) s) = take m (drop (k * m) xs)" for k
  proof -
    have "nat (int k * s) = k * m"
      by (simp add: m(2) nat_mult_distrib)
    then show ?thesis
      using page_items_eq [of "int k + 1" s xs] assms by (simp add: m_def)
  qed
  have "concat (map (\<lambda>p. page_items (paginate_data xs p s)) [1 .. int t])
        = concat (map (\<lambda>k. take m (drop (k * m) xs)) [0..<t])"
    by (simp add: upto_as_upt comp_def items)
  also have "\<dots> = take (t * m) xs" by (rule concat_chunks)
  also have "\<dots> = xs" using cover by simp
  finally have A: "concat (map (\<lambda>p. page_items (paginate_data xs p s))
                     [1 .. page_total_pages (paginate_data xs 1 s)]) = xs"
    by (simp add: tp)
  have B: "length (page_items (paginate_data xs p s)) = nat s"
    if "1 \<le> p \<and> p < page_total_pages (paginate_data xs 1 s)" for p
  proof -
    from that tp have p: "1 \<le> p" "p < int t" by simp_all
    define k where "k = nat (p - 1)"
    have pk: "p = int k + 1" and kt: "k + 1 < t" using p by (simp_all add: k_def)
    from kt have "(k + 1) * m \<le> (t - 1) * m" by (intro mult_le_mono1) simp
    with lower kt have "(k + 1) * m < length xs" by auto
    then have "m \<le> length xs - k * m" by simp
    then show ?thesis by (simp add: pk items m_def [symmetric] min_def)
  qed
  have C: "length (page_items (paginate_data xs (page_total_pages (paginate_data xs 1 s)) s)) \<le> nat s"
  proof (cases "1 \<le> page_total_pages (paginate_data xs 1 s)")
    case True
    then show ?thesis using page_items_eq [OF True assms, of xs] by simp
  next
    case False
    with tp have "t = 0" by simp
    with cover have "xs = []" by simp
    then show ?thesis by (simp add: paginate_data_def py_slice_def page_items_def Let_def)
  qed
  from A B C show ?thesis by blast
qed


theorem paginate_data_partition_witness:
  "(1::int) \<le> 2
   \<and> page_total_pages (paginate_data [JInt 10, JInt 20, JInt 30] 1 2) = 2
   \<and> concat (map (\<lambda>p. page_items (paginate_data [JInt 10, JInt 20, JInt 30] p 2)) [1 .. 2])
       = [JInt 10, JInt 20, JInt 30]
   \<and> length (page_items (paginate_data [JInt 10, JInt 20, JInt 30] 1 2)) = 2
   \<and> length (page_items (paginate_data [JInt 10, JInt 20, JInt 30] 2 2)) \<le> 2"
proof -
  have h: "(1::int) \<le> 2" by simp
  have tp: "page_total_pages (paginate_data [JInt 10, JInt 20, JInt 30] 1 2) = 2"
    by (simp add: paginate_data_def page_total_pages_def Let_def)
  have p1: "(1::int) \<le> 1 \<and> 1 < page_total_pages (paginate_data [JInt 10, JInt 20, JInt 30] 1 2)"
    by (simp add: tp)
  from paginate_data_partition [OF h, of "[JInt 10, JInt 20, JInt 30]"] p1 tp h
  show ?thesis by auto
qed

section \<open>Properties of the Nested Filter Engine and the Recursive Text Search\<close>

lemma py_find_ge: "- 1 \<le> py_find s sub"
  by (induction s) (auto simp: Let_def)

lemma py_find_sublist: "py_find s sub \<noteq> - 1 \<longleftrightarrow> sublist sub s"
proof (induction s)
  case Nil
  then show ?case by simp
next
  case (Cons c s)
  have "py_find s sub + 1 \<noteq> - 1" using py_find_ge [of s sub] by arith
  with Cons show ?case
    by (auto simp: Let_def sublist_Cons_right)
qed


lemma find_lower_contains:
  "py_find (py_lower (py_str x)) (py_lower (py_str v)) \<noteq> - 1
   \<longleftrightarrow> spec_contains_ci (py_str x) (py_str v)"
  by (simp add: py_find_sublist spec_contains_ci_def)

lemma fold_accessor_None:
  "fold (\<lambda>segment current. case current of Some (JObj d) \<Rightarrow> map_of d segment | _ \<Rightarrow> None)
        keys None = None"
  by (induction keys) simp_all

lemma nested_walk_fold:
  "nested_walk current keys =
     fold (\<lambda>segment current. case current of Some (JObj d) \<Rightarrow> map_of d segment | _ \<Rightarrow> None)
          keys (Some current)"
proof (induction keys arbitrary: current)
  case Nil
  then show ?case by simp
next
  case (Cons key keys)
  show ?case
  proof (cases current)
    case (JObj d)
    then show ?thesis
      using Cons [of "dict_get d key JNull"]
      by (cases "map_of d key") (simp_all add: dict_has_def dict_get_def fold_accessor_None)
  qed (simp_all add: fold_accessor_None)
qed

lemma get_nested_value_spec:
  "get_nested_value item key v =
     (case spec_field_accessor item key of
        Some x \<Rightarrow> spec_contains_ci (py_str x) (py_str v)
      | None \<Rightarrow> False)"
  by (simp add: get_nested_value_def spec_field_accessor_def nested_walk_fold
      find_lower_contains split: option.splits)

lemma py_str_JStr: "py_str (JStr s) = s"
  by (simp add: py_str_def)

lemma get_field_value_mapping:
  "get_field_value (JObj d) key = Inr (py_str (spec_direct_field (JObj d) key))"
  by (simp add: get_field_value_def ebind_def dict_get_def spec_direct_field_def
      split: option.splits)

lemma get_field_value_Inr:
  "get_field_value item key = Inr s \<Longrightarrow> is_mapping item"
  by (cases item) (simp_all add: get_field_value_def ebind_def is_mapping_def)

lemma filter_top_level_Inr:
  "filter_top_level xs key v = Inr ys \<Longrightarrow>
     ys = filter (\<lambda>r. spec_filter_matches r key v) xs \<and> (\<forall>r \<in> set xs. is_mapping r)"
  if "CHR ''.'' \<notin> set key"
proof (induction xs arbitrary: ys)
  case Nil
  then show ?case by simp
next
  case (Cons item rest)
  from Cons.prems obtain s kept where s: "get_field_value item key = Inr s"
    and kept: "filter_top_level rest key v = Inr kept"
    and ys: "ys = (if py_find (py_lower (py_str (JStr s))) (py_lower (py_str v)) \<noteq> - 1
                   then item # kept else kept)"
    by (auto simp: ebind_def split: sum.splits)
  from s have m: "is_mapping item" by (rule get_field_value_Inr)
  then obtain d where d: "item = JObj d" by (cases item) (simp_all add: is_mapping_def)
  from s d have s_eq: "s = py_str (spec_direct_field item key)"
    by (simp add: get_field_value_mapping)
  have "py_find (py_lower (py_str (JStr s))) (py_lower (py_str v)) \<noteq> - 1
        \<longleftrightarrow> spec_filter_matches item key v"
    using that by (simp add: py_str_JStr s_eq py_find_sublist spec_filter_matches_def spec_contains_ci_def)
  with Cons.IH [OF kept] ys m show ?case by simp
qed

lemma filter_top_level_mappings:
  assumes "CHR ''.'' \<notin> set key" and "\<forall>r \<in> set xs. is_mapping r"
  shows "filter_top_level xs key v = Inr (filter (\<lambda>r. spec_filter_matches r key v) xs)"
  using assms(2)
proof (induction xs)
  case Nil
  then show ?case by simp
next
  case (Cons item rest)
  then obtain d where d: "item = JObj d" by (cases item) (simp_all add: is_mapping_def)
  have "py_find (py_lower (py_str (JStr (py_str (spec_direct_field item key))))) (py_lower (py_str v)) \<noteq> - 1
        \<longleftrightarrow> spec_filter_matches item key v"
    using assms(1) by (simp add: py_str_JStr py_find_sublist spec_filter_matches_def spec_contains_ci_def)
  with Cons d show ?case
    by (simp add: get_field_value_mapping ebind_def)
qed

lemma filter_nested_spec:
  "CHR ''.'' \<in> set key \<Longrightarrow>
   [item \<leftarrow> xs. get_nested_value item key v] = filter (\<lambda>r. spec_filter_matches r key v) xs"
  by (simp add: get_nested_value_spec spec_filter_matches_def)

text \<open>A record can be put through a filter: a key without a dot needs a mapping.\<close>

lemma filter_data_Inr:
  "filter_data xs filters = Inr ys \<Longrightarrow>
     ys = filter (\<lambda>r. \<forall>(k, v) \<in> set filters. spec_filter_matches r k v) xs
     \<and> (\<forall>r \<in> set ys. \<forall>(k, v) \<in> set filters. CHR ''.'' \<notin> set k \<longrightarrow> is_mapping r)"
proof (induction filters arbitrary: xs ys)
  case Nil
  then show ?case by simp
next
  case (Cons f filters)
  obtain key v where f: "f = (key, v)" by (cases f)
  show ?case
  proof (cases "CHR ''.'' \<in> set key")
    case True
    with Cons.prems f have "filter_data (filter (\<lambda>r. spec_filter_matches r key v) xs) filters = Inr ys"
      by (simp add: filter_nested_spec)
    from Cons.IH [OF this] True f show ?thesis
      by (auto simp: conj_commute)
  next
    case False
    with Cons.prems f obtain kept where kept: "filter_top_level xs key v = Inr kept"
      and rest: "filter_data kept filters = Inr ys"
      by (auto simp: ebind_def split: sum.splits)
    from filter_top_level_Inr [OF False kept]
    have k: "kept = filter (\<lambda>r. spec_filter_matches r key v) xs" and m: "\<forall>r \<in> set xs. is_mapping r"
      by simp_all
    from Cons.IH [OF rest] k m f show ?thesis
      by (auto simp: conj_commute)
  qed
qed

lemma filter_data_total:
  assumes "\<forall>r \<in> set xs. \<forall>(k, v) \<in> set filters. CHR ''.'' \<notin> set k \<longrightarrow> is_mapping r"
  shows "filter_data xs filters =
           Inr (filter (\<lambda>r. \<forall>(k, v) \<in> set filters. spec_filter_matches r k v) xs)"
  using assms
proof (induction filters arbitrary: xs)
  case Nil
  then show ?case by simp
next
  case (Cons f filters)
  obtain key v where f: "f = (key, v)" by (cases f)
  show ?case
  proof (cases "CHR ''.'' \<in> set key")
    case True
    have "filter_data (filter (\<lambda>r. spec_filter_matches r key v) xs) filters
          = Inr (filter (\<lambda>r. \<forall>(k, v) \<in> set filters. spec_filter_matches r k v)
                   (filter (\<lambda>r. spec_filter_matches r key v) xs))"
      using Cons.prems by (intro Cons.IH) auto
    with True f show ?thesis
      by (simp add: filter_nested_spec conj_commute)
  next
    case False
    with Cons.prems f have m: "\<forall>r \<in> set xs. is_mapping r" by auto
    have "filter_data (filter (\<lambda>r. spec_filter_matches r key v) xs) filters
          = Inr (filter (\<lambda>r. \<forall>(k, v) \<in> set filters. spec_filter_matches r k v)
                   (filter (\<lambda>r. spec_filter_matches r key v) xs))"
      using Cons.prems by (intro Cons.IH) auto
    with False f show ?thesis
      by (simp add: filter_top_level_mappings [OF False m] ebind_def conj_commute)
  qed
qed


text \<open>
  Claim C4. For every list of records (mappings) and every filter mapping, \<open>filter_data\<close>
  returns exactly the sublist of the records that satisfy all filters, in the order of the
  input and with the records as they were given. A key with a dot matches iff the Field
  Accessor resolves the path and the stringified value found contains the stringified
  filter value case-insensitively; a key without a dot matches iff the stringified direct
  field (the empty string when the field is missing) does.
\<close>

theorem filter_data_spec:
  assumes "\<forall>r \<in> set records. is_mapping r"
  shows "filter_data records filters =
           Inr (filter (\<lambda>r. \<forall>(key, value) \<in> set filters. spec_filter_matches r key value) records)"
  using assms by (intro filter_data_total) simp

theorem filter_data_spec_witness:
  "list_all is_mapping
     [JObj [(''name'', JStr ''Alpha''), (''metadata'', JObj [(''version'', JStr ''1.0.0'')])],
      JObj [(''name'', JStr ''Beta''), (''metadata'', JObj [(''version'', JStr ''2.0'')])],
      JObj [(''name'', JStr ''Gamma''), (''metadata'', JObj [(''version'', JInt 10)])]]
   \<and> filter_data
        [JObj [(''name'', JStr ''Alpha''), (''metadata'', JObj [(''version'', JStr ''1.0.0'')])],
         JObj [(''name'', JStr ''Beta''), (''metadata'', JObj [(''version'', JStr ''2.0'')])],
         JObj [(''name'', JStr ''Gamma''), (''metadata'', JObj [(''version'', JInt 10)])]]
        [(''metadata.version'', JStr ''1''), (''name'', JStr ''A'')]
      = Inr [JObj [(''name'', JStr ''Alpha''), (''metadata'', JObj [(''version'', JStr ''1.0.0'')])],
             JObj [(''name'', JStr ''Gamma''), (''metadata'', JObj [(''version'', JInt 10)])]]"
proof -
  let ?records = "[JObj [(''name'', JStr ''Alpha''), (''metadata'', JObj [(''version'', JStr ''1.0.0'')])],
                   JObj [(''name'', JStr ''Beta''), (''metadata'', JObj [(''version'', JStr ''2.0'')])],
                   JObj [(''name'', JStr ''Gamma''), (''metadata'', JObj [(''version'', JInt 10)])]]"
  let ?filters = "[(''metadata.version'', JStr ''1''), (''name'', JStr ''A'')]"
  have h: "\<forall>r \<in> set ?records. is_mapping r"
    by (simp add: is_mapping_def)
  have e: "filter (\<lambda>r. \<forall>(key, value) \<in> set ?filters. spec_filter_matches r key value) ?records
           = [JObj [(''name'', JStr ''Alpha''), (''metadata'', JObj [(''version'', JStr ''1.0.0'')])],
              JObj [(''name'', JStr ''Gamma''), (''metadata'', JObj [(''version'', JInt 10)])]]"
    by code_simp
  have l: "list_all is_mapping ?records"
    using h by (simp only: list_all_iff)
  from filter_data_spec [OF h, of ?filters] e l show ?thesis
    by (simp only: simp_thms)
qed

text \<open>
  Claim C8. The Nested Filter Engine is idempotent: whatever \<open>filter_data\<close> returns for
  records R and filters F is returned again when that result is filtered by F once more
  (and an error of the first run is the error of the composition). On records that are
  mappings the first run does return.
\<close>

theorem filter_data_idempotent:
  "ebind (filter_data records filters) (\<lambda>kept. filter_data kept filters)
     = filter_data records filters
   \<and> ((\<forall>r \<in> set records. is_mapping r) \<longrightarrow>
        (\<exists>kept. filter_data records filters = Inr kept \<and> filter_data kept filters = Inr kept))"
proof -
  have again: "filter_data kept filters = Inr kept"
    if "filter_data records filters = Inr kept" for kept
  proof -
    from filter_data_Inr [OF that]
    have k: "kept = filter (\<lambda>r. \<forall>(k, v) \<in> set filters. spec_filter_matches r k v) records"
      and m: "\<forall>r \<in> set kept. \<forall>(k, v) \<in> set filters. CHR ''.'' \<notin> set k \<longrightarrow> is_mapping r"
      by simp_all
    have "filter (\<lambda>r. \<forall>(k, v) \<in> set filters. spec_filter_matches r k v) kept = kept"
      by (subst (1 2) k) simp
    with filter_data_total [OF m] show ?thesis by simp
  qed
  have A: "ebind (filter_data records filters) (\<lambda>kept. filter_data kept filters)
           = filter_data records filters"
    by (cases "filter_data records filters") (simp_all add: ebind_def again)
  have B: "\<exists>kept. filter_data records filters = Inr kept \<and> filter_data kept filters = Inr kept"
    if "\<forall>r \<in> set records. is_mapping r"
  proof -
    from that have "\<forall>r \<in> set records. \<forall>(k, v) \<in> set filters. CHR ''.'' \<notin> set k \<longrightarrow> is_mapping r"
      by auto
    from filter_data_total [OF this] again show ?thesis by blast
  qed
  from A B show ?thesis by blast
qed

theorem filter_data_idempotent_witness:
  "list_all is_mapping [JObj [(''name'', JStr ''Alpha'')], JObj [(''name'', JStr ''Beta'')]]
   \<and> filter_data [JObj [(''name'', JStr ''Alpha'')], JObj [(''name'', JStr ''Beta'')]]
        [(''name'', JStr ''alp'')] = Inr [JObj [(''name'', JStr ''Alpha'')]]
   \<and> filter_data [JObj [(''name'', JStr ''Alpha'')]] [(''name'', JStr ''alp'')]
       = Inr [JObj [(''name'', JStr ''Alpha'')]]"
proof -
  let ?records = "[JObj [(''name'', JStr ''Alpha'')], JObj [(''name'', JStr ''Beta'')]]"
  let ?filters = "[(''name'', JStr ''alp'')]"
  have h: "\<forall>r \<in> set ?records. is_mapping r"
    by (simp add: is_mapping_def)
  have e: "filter_data ?records ?filters = Inr [JObj [(''name'', JStr ''Alpha'')]]"
    by code_simp
  from filter_data_idempotent [of ?records ?filters] h
  obtain kept where "filter_data ?records ?filters = Inr kept"
    and "filter_data kept ?filters = Inr kept"
    by blast
  moreover have "list_all is_mapping ?records"
    using h by (simp only: list_all_iff)
  ultimately show ?thesis using e by simp
qed





















lemma fixture_metadata_frames: "frames_needed fixture_metadata = 1"
  by (simp add: fixture_metadata_def)

















text \<open>
  Claim C9. For every list of records, \<open>filter_data\<close> with the empty filter mapping and
  \<open>search_in_text\<close> with the empty query both return the list unchanged, in the same
  order. The search returns its argument before any call of the match predicate, so it
  does so for stored records of every shape, in every store and with any number of calls
  left.
\<close>

theorem empty_filter_and_query_identity:
  "filter_data records [] = Inr records \<and> search_in_text frames heap data [] = Inr data"
  by (simp add: search_in_text_def)

section \<open>Properties of the Batch Executor and of the handlers\<close>

lemma operation_prefix_2: "operation_prefix (Suc 0) = ''Operation 2: ''"
  by code_simp

lemma validate_missing_data:
  assumes "structurally_valid op1" and "missing_data op2"
  shows "validate_batch_operations (JList [op1, op2, op3])
         = (False, Some (''Operation 2: field 'data' is required''))"
proof -
  from assms(1) obtain d1 where op1: "op1 = JObj d1" and v1: "valid_action d1"
    and h1: "dict_has d1 ''data''" and m1: "is_mapping (dict_get d1 ''data'' JNull)"
    by (cases op1) (simp_all add: structurally_valid_def)
  from assms(2) obtain d2 where op2: "op2 = JObj d2" and v2: "valid_action d2"
    and h2: "\<not> dict_has d2 ''data''"
    by (cases op2) (simp_all add: missing_data_def)
  from v1 h1 m1 have "validate_operations_loop [op1, op2, op3] 0
                      = validate_operations_loop [op2, op3] (Suc 0)"
    by (simp add: op1 valid_action_def)
  also from v2 h2 have "\<dots> = (False, Some (operation_prefix (Suc 0) @ ''field 'data' is required''))"
    by (simp add: op2 valid_action_def)
  finally show ?thesis
    by (simp add: validate_batch_operations_def operation_prefix_2)
qed

lemma batch_endpoint_missing_data:
  assumes "structurally_valid op1" and "missing_data op2"
  shows "batch_endpoint create (Some (JObj [(''operations'', JList [op1, op2, op3])])) st
         = Some (Response 400 (error_body (Some ''Operation 2: field 'data' is required'')), st)"
  by (simp add: batch_endpoint_def validate_json_payload_def dict_get_def
      validate_missing_data [OF assms])

text \<open>
  Claim C1, as amended. For a batch request whose operations list has exactly 3 operations,
  the first structurally valid and the second with a valid action and no \<^verbatim>\<open>data\<close> field,
  both batch endpoints reject the whole request before any operation runs: the answer has
  status 400 and the error \<^verbatim>\<open>Operation 2: field 'data' is required\<close>, it has no results
  list, and the collections are unchanged, whatever the third operation is.
\<close>

theorem batch_missing_data_rejected:
  assumes "structurally_valid op1" and "missing_data op2"
  shows "batch_organizations clock (Some (JObj [(''operations'', JList [op1, op2, op3])])) st
           = Some (Response 400 (error_body (Some ''Operation 2: field 'data' is required'')), st)
         \<and> batch_users clock (Some (JObj [(''operations'', JList [op1, op2, op3])])) st
           = Some (Response 400 (error_body (Some ''Operation 2: field 'data' is required'')), st)"
  by (simp add: batch_organizations_def batch_users_def batch_endpoint_missing_data [OF assms])


theorem batch_missing_data_rejected_witness:
  "structurally_valid
     (JObj [(''action'', JStr ''create''),
            (''data'', JObj [(''name'', JStr ''Alpha''), (''type'', JStr ''test'')])])
   \<and> missing_data (JObj [(''action'', JStr ''create'')])
   \<and> batch_organizations example_clock (Some example_batch_request) create_sample_data
       = Some (Response 400 (error_body (Some ''Operation 2: field 'data' is required'')),
               create_sample_data)
   \<and> batch_users example_clock (Some example_batch_request) create_sample_data
       = Some (Response 400 (error_body (Some ''Operation 2: field 'data' is required'')),
               create_sample_data)"
proof -
  have h1: "structurally_valid
     (JObj [(''action'', JStr ''create''),
            (''data'', JObj [(''name'', JStr ''Alpha''), (''type'', JStr ''test'')])])"
    by code_simp
  have h2: "missing_data (JObj [(''action'', JStr ''create'')])"
    by code_simp
  from batch_missing_data_rejected [OF h1 h2, of example_clock _ create_sample_data] h1 h2
  show ?thesis
    unfolding example_batch_request_def by blast
qed

text \<open>
  The claim as the specification states it fails on the example batch: the answer carries
  no results list of 3 entries.
\<close>

theorem batch_missing_data_counterexample:
  "\<not> (\<exists>response st results.
        batch_organizations example_clock (Some example_batch_request) create_sample_data
          = Some (response, st)
        \<and> response_results response = Some results \<and> length results = 3)"
proof -
  have h1: "structurally_valid
     (JObj [(''action'', JStr ''create''),
            (''data'', JObj [(''name'', JStr ''Alpha''), (''type'', JStr ''test'')])])"
    by code_simp
  have h2: "missing_data (JObj [(''action'', JStr ''create'')])"
    by code_simp
  have "batch_organizations example_clock (Some example_batch_request) create_sample_data
        = Some (Response 400 (error_body (Some ''Operation 2: field 'data' is required'')),
                create_sample_data)"
    unfolding example_batch_request_def batch_organizations_def
    by (rule batch_endpoint_missing_data [OF h1 h2])
  moreover have "response_results
       (Response 400 (error_body (Some ''Operation 2: field 'data' is required''))) = None"
    by (simp add: response_results_def error_body_def)
  ultimately show ?thesis by simp
qed

lemma batch_endpoint_skips:
  assumes "action \<noteq> JStr ''create''"
    and "action \<in> set [JStr ''create'', JStr ''update'', JStr ''delete'']"
  shows "batch_endpoint create
           (Some (JObj [(''operations'', JList [JObj [(''action'', action), (''data'', JObj d)]])])) st
         = Some (Response 200 (JObj [(''results'', JList [])]), st)"
proof -
  have v: "validate_batch_operations (JList [JObj [(''action'', action), (''data'', JObj d)]])
           = (True, None)"
    using assms(2)
    by (auto simp: validate_batch_operations_def dict_has_def dict_get_def is_mapping_def)
  have l: "batch_loop create [JObj [(''action'', action), (''data'', JObj d)]] 0 [] st
           = Some (Inr ([], st))"
    using assms(1) by (simp add: dict_getitem_def)
  show ?thesis
    by (simp add: batch_endpoint_def validate_json_payload_def dict_get_def v l
        del: batch_loop.simps)
qed

text \<open>
  Claim C3, at an input where the code departs from it. A batch of one \<^verbatim>\<open>delete\<close>
  operation passes the structural validation; both batch endpoints answer 200 with an
  empty results list and change nothing: the operation gets no outcome.
\<close>

theorem batch_delete_not_processed:
  "batch_organizations example_clock (Some example_delete_request) create_sample_data
     = Some (Response 200 (JObj [(''results'', JList [])]), create_sample_data)
   \<and> batch_users example_clock (Some example_delete_request) create_sample_data
     = Some (Response 200 (JObj [(''results'', JList [])]), create_sample_data)"
  unfolding example_delete_request_def batch_organizations_def batch_users_def
  by (simp add: batch_endpoint_skips)

text \<open>
  Claim C2, at an input where the code departs from it. In the generated data the emails
  are pairwise distinct; the update of user \<^verbatim>\<open>USER001_001\<close> with the email of user
  \<^verbatim>\<open>USER001_002\<close> is answered 200, and afterwards two users have the same email.
\<close>

theorem update_breaks_email_uniqueness:
  "emails_unique create_sample_data
   \<and> fst (handle_user example_clock ''USER001_001'' (PUT (Some example_email_update))
            create_sample_data)
     = Response 200
         (JObj [(''id'', JStr ''USER001_001''), (''name'', JStr ''Test User 1-1''),
                (''email'', JStr ''test1_2@example.com''),
                (''organization_id'', JStr ''ORG001''),
                (''profile_id'', JStr ''PROF001_001''),
                (''metadata'',
                 JObj [(''created_at'', JStr ''2024-01-01T00:00:00Z''),
                       (''updated_at'', JStr ''t0''), (''version'', JStr ''1.0.0'')])])
   \<and> \<not> emails_unique
         (snd (handle_user example_clock ''USER001_001'' (PUT (Some example_email_update))
                 create_sample_data))"
  by code_simp

lemma auto_id_loop_returns:
  assumes "auto_id_loop tag collection candidate = Some r"
  shows "\<not> (any_id_is collection candidate = Inr True
        \<and> any_id_is collection (tag @ fmt03d (length collection + 2)) = Inr True)"
proof (rule auto_id_loop.raw_induct
    [where P = "\<lambda>tag collection candidate r.
        \<not> (any_id_is collection candidate = Inr True
           \<and> any_id_is collection (tag @ fmt03d (length collection + 2)) = Inr True)",
     OF _ assms])
  fix loop :: "string \<Rightarrow> pydict list \<Rightarrow> string \<Rightarrow> (py_error + string) option"
    and tag collection candidate and r :: "py_error + string"
  assume IH: "\<And>t c d y. loop t c d = Some y \<Longrightarrow>
      \<not> (any_id_is c d = Inr True \<and> any_id_is c (t @ fmt03d (length c + 2)) = Inr True)"
    and body: "(case any_id_is collection candidate of
                  Inl e \<Rightarrow> Some (Inl e)
                | Inr conflict \<Rightarrow>
                    if conflict
                    then loop tag collection (tag @ fmt03d (length collection + 2))
                    else Some (Inr candidate)) = Some r"
  show "\<not> (any_id_is collection candidate = Inr True
        \<and> any_id_is collection (tag @ fmt03d (length collection + 2)) = Inr True)"
  proof
    assume both: "any_id_is collection candidate = Inr True
        \<and> any_id_is collection (tag @ fmt03d (length collection + 2)) = Inr True"
    with body have "loop tag collection (tag @ fmt03d (length collection + 2)) = Some r"
      by simp
    from IH [OF this] both show False by simp
  qed
qed

lemma auto_id_loop_diverges:
  assumes "any_id_is collection candidate = Inr True"
    and "any_id_is collection (tag @ fmt03d (length collection + 2)) = Inr True"
  shows "auto_id_loop tag collection candidate = None"
proof (cases "auto_id_loop tag collection candidate")
  case None
  then show ?thesis .
next
  case (Some r)
  from auto_id_loop_returns [OF this] assms show ?thesis by simp
qed

lemma after_two_deletions_ids:
  "map (\<lambda>org. dict_get org ''id'' JNull) (SAMPLE_ORGANIZATIONS after_two_deletions)
   = [JStr ''ORG003'', JStr ''ORG004'', JStr ''ORG005'', JStr ''ORG006'', JStr ''ORG007'',
      JStr ''ORG008'', JStr ''ORG009'', JStr ''ORG010'']"
  by code_simp

text \<open>
  Claim C10, at an input where the code departs from it. After \<^verbatim>\<open>ORG001\<close> and \<^verbatim>\<open>ORG002\<close>
  have been deleted from the generated data, the eight organizations left are \<^verbatim>\<open>ORG003\<close>
  to \<^verbatim>\<open>ORG010\<close>; the creation of an organization without an id tries \<^verbatim>\<open>ORG009\<close>, then
  \<^verbatim>\<open>ORG010\<close> for ever, and the handler does not return.
\<close>

theorem auto_id_loop_does_not_return:
  "map (\<lambda>org. dict_get org ''id'' JNull) (SAMPLE_ORGANIZATIONS after_two_deletions)
     = [JStr ''ORG003'', JStr ''ORG004'', JStr ''ORG005'', JStr ''ORG006'', JStr ''ORG007'',
        JStr ''ORG008'', JStr ''ORG009'', JStr ''ORG010'']
   \<and> handle_organizations_post example_clock (Some example_new_organization) after_two_deletions
     = None"
proof -
  have c1: "any_id_is (SAMPLE_ORGANIZATIONS after_two_deletions)
              (''ORG'' @ fmt03d (length (SAMPLE_ORGANIZATIONS after_two_deletions) + 1)) = Inr True"
    by code_simp
  have c2: "any_id_is (SAMPLE_ORGANIZATIONS after_two_deletions)
              (''ORG'' @ fmt03d (length (SAMPLE_ORGANIZATIONS after_two_deletions) + 2)) = Inr True"
    by code_simp
  have g: "auto_generate_id ''ORG'' (SAMPLE_ORGANIZATIONS after_two_deletions) = None"
    unfolding auto_generate_id_def by (rule auto_id_loop_diverges [OF c1 c2])
  have v: "validate_organization_data example_new_organization False = Inr (True, None)"
    by code_simp
  have p: "py_get example_new_organization ''id'' JNull = Inr JNull"
    by code_simp
  have t: "truthy example_new_organization"
    by code_simp
  have "create_organization example_clock example_new_organization after_two_deletions = None"
    by (simp add: create_organization_def assign_id_def v p g)
  then have "handle_organizations_post example_clock (Some example_new_organization)
               after_two_deletions = None"
    using t by (simp add: handle_organizations_post_def handle_post_def validate_json_payload_def)
  with after_two_deletions_ids show ?thesis by simp
qed

section \<open>What the creation and deletion paths guarantee\<close>

text \<open>
  The id loop returns at once when the first candidate is free, after one retry when the
  first is taken and the second is free, and an id it returns is not in the collection.
\<close>

lemma any_id_is_False:
  "any_id_is collection candidate = Inr False \<Longrightarrow>
     \<forall>item \<in> set collection. dict_getitem item ''id'' \<noteq> Inr (JStr candidate)"
proof (induction collection)
  case Nil
  then show ?case by simp
next
  case (Cons item rest)
  then show ?case
    by (cases "dict_getitem item ''id''") (auto simp: ebind_def split: if_splits)
qed

lemma auto_id_loop_free:
  assumes "any_id_is collection candidate = Inr False"
  shows "auto_id_loop tag collection candidate = Some (Inr candidate)"
  by (subst auto_id_loop.simps) (simp add: assms)

lemma auto_id_loop_taken:
  assumes "any_id_is collection candidate = Inr True"
  shows "auto_id_loop tag collection candidate
         = auto_id_loop tag collection (tag @ fmt03d (length collection + 2))"
  by (subst auto_id_loop.simps) (simp add: assms)

lemma auto_generate_id_first:
  assumes "any_id_is collection (tag @ fmt03d (length collection + 1)) = Inr False"
  shows "auto_generate_id tag collection = Some (Inr (tag @ fmt03d (length collection + 1)))"
  unfolding auto_generate_id_def by (rule auto_id_loop_free [OF assms])

lemma auto_generate_id_second:
  assumes "any_id_is collection (tag @ fmt03d (length collection + 1)) = Inr True"
    and "any_id_is collection (tag @ fmt03d (length collection + 2)) = Inr False"
  shows "auto_generate_id tag collection = Some (Inr (tag @ fmt03d (length collection + 2)))"
  unfolding auto_generate_id_def
  by (simp only: auto_id_loop_taken [OF assms(1)] auto_id_loop_free [OF assms(2)])

lemma assign_id_diverges:
  assumes "py_get data ''id'' JNull = Inr provided_id" and "\<not> truthy provided_id"
    and "any_id_is collection (tag @ fmt03d (length collection + 1)) = Inr True"
    and "any_id_is collection (tag @ fmt03d (length collection + 2)) = Inr True"
  shows "assign_id st entity_type tag collection data = None"
proof -
  have "auto_generate_id tag collection = None"
    unfolding auto_generate_id_def by (rule auto_id_loop_diverges [OF assms(3,4)])
  with assms(1,2) show ?thesis by (simp add: assign_id_def)
qed

lemma auto_id_loop_result:
  assumes "auto_id_loop tag collection candidate = Some r"
  shows "\<forall>g. r = Inr g \<longrightarrow> any_id_is collection g = Inr False"
proof (rule auto_id_loop.raw_induct
    [where P = "\<lambda>tag collection candidate r.
        \<forall>g. r = Inr g \<longrightarrow> any_id_is collection g = Inr False",
      OF _ assms])
  fix loop :: "string \<Rightarrow> pydict list \<Rightarrow> string \<Rightarrow> (py_error + string) option"
    and tag collection candidate and r :: "py_error + string"
  assume IH: "\<And>t c d y. loop t c d = Some y \<Longrightarrow>
      \<forall>g. y = Inr g \<longrightarrow> any_id_is c g = Inr False"
    and body: "(case any_id_is collection candidate of
                  Inl e \<Rightarrow> Some (Inl e)
                | Inr conflict \<Rightarrow>
                    if conflict
                    then loop tag collection (tag @ fmt03d (length collection + 2))
                    else Some (Inr candidate)) = Some r"
  show "\<forall>g. r = Inr g \<longrightarrow> any_id_is collection g = Inr False"
  proof (cases "any_id_is collection candidate")
    case (Inl e)
    with body show ?thesis by auto
  next
    case (Inr conflict)
    show ?thesis
    proof (cases conflict)
      case True
      with Inr body have "loop tag collection (tag @ fmt03d (length collection + 2)) = Some r"
        by simp
      from IH [OF this] show ?thesis .
    next
      case False
      with Inr body show ?thesis by auto
    qed
  qed
qed

lemma auto_generate_id_fresh:
  assumes "auto_generate_id tag collection = Some (Inr generated)"
  shows "\<forall>item \<in> set collection. dict_getitem item ''id'' \<noteq> Inr (JStr generated)"
proof -
  from auto_id_loop_result [OF assms [unfolded auto_generate_id_def]]
  have "any_id_is collection generated = Inr False" by simp
  then show ?thesis by (rule any_id_is_False)
qed

text \<open>
  The batch loop appends exactly one outcome for every \<^verbatim>\<open>create\<close> operation and none for
  any other operation.
\<close>

lemma batch_loop_length:
  "batch_loop create ops i results st = Some (Inr (results', st')) \<Longrightarrow>
     length results' = length results + length (filter is_create ops)"
proof (induction ops arbitrary: i results st)
  case Nil
  then show ?case by simp
next
  case (Cons op rest)
  show ?case
  proof (cases "py_getitem op ''action''")
    case (Inl e)
    with Cons.prems show ?thesis by simp
  next
    case (Inr action)
    show ?thesis
    proof (cases "action = JStr ''create''")
      case True
      with Inr Cons.prems obtain entry st1 where "batch_create create i op st = Some (entry, st1)"
        and "batch_loop create rest (Suc i) (results @ [entry]) st1 = Some (Inr (results', st'))"
        by (auto split: option.splits)
      from Cons.IH [OF this(2)] True Inr show ?thesis by (simp add: is_create_def)
    next
      case False
      with Inr Cons.prems have "batch_loop create rest (Suc i) results st = Some (Inr (results', st'))"
        by simp
      from Cons.IH [OF this] False Inr show ?thesis by (simp add: is_create_def)
    qed
  qed
qed


text \<open>The record that an update or a deletion addresses is in the collection.\<close>

lemma find_index_found:
  "find_index collection entity_id = Inr (Some n) \<Longrightarrow>
     n < length collection \<and> dict_getitem (collection ! n) ''id'' = Inr (JStr entity_id)"
proof (induction collection arbitrary: n)
  case Nil
  then show ?case by simp
next
  case (Cons item rest)
  show ?case
  proof (cases "dict_getitem item ''id''")
    case (Inl e)
    with Cons.prems show ?thesis by (simp add: ebind_def)
  next
    case (Inr i)
    show ?thesis
    proof (cases "i = JStr entity_id")
      case True
      with Inr Cons.prems show ?thesis by (simp add: ebind_def)
    next
      case False
      with Inr Cons.prems obtain k where "find_index rest entity_id = Inr (Some k)" and "n = Suc k"
        by (auto simp: ebind_def split: sum.splits)
      with Cons.IH [of k] show ?thesis by simp
    qed
  qed
qed

text \<open>
  Deleting a user, creating a user and a batch of user creations keep the emails pairwise
  distinct, in a state whose stored ids are set.
\<close>

lemma distinct_map_remove1:
  "distinct (map f xs) \<Longrightarrow> distinct (map f (remove1 x xs))"
proof (induction xs)
  case Nil
  then show ?case by simp
next
  case (Cons y ys)
  have "f ` set (remove1 x ys) \<subseteq> f ` set ys"
    using set_remove1_subset [of x ys] by blast
  with Cons show ?case by auto
qed

lemma delete_user_keeps_emails_unique:
  assumes "emails_unique st"
  shows "emails_unique (snd (handle_user clock user_id DELETE st))"
proof (cases "find_index (SAMPLE_USERS st) user_id")
  case (Inl e)
  with assms show ?thesis by (simp add: handle_user_def)
next
  case (Inr found)
  show ?thesis
  proof (cases found)
    case None
    with Inr assms show ?thesis by (simp add: handle_user_def)
  next
    case (Some n)
    with Inr assms show ?thesis
      by (simp add: handle_user_def Let_def emails_unique_def user_emails_def
          distinct_map_remove1)
  qed
qed

lemma delete_user_keeps_ids_set:
  assumes "user_ids_set st"
  shows "user_ids_set (snd (handle_user clock user_id DELETE st))"
proof (cases "find_index (SAMPLE_USERS st) user_id")
  case (Inl e)
  with assms show ?thesis by (simp add: handle_user_def)
next
  case (Inr found)
  show ?thesis
  proof (cases found)
    case None
    with Inr assms show ?thesis by (simp add: handle_user_def)
  next
    case (Some n)
    have "set (remove1 (SAMPLE_USERS st ! n) (SAMPLE_USERS st)) \<subseteq> set (SAMPLE_USERS st)"
      by (rule set_remove1_subset)
    with Some Inr assms show ?thesis
      by (auto simp: handle_user_def Let_def user_ids_set_def list_all_iff)
  qed
qed

lemma echeck_valid:
  assumes "echeck c rest = Inr (True, m)"
  shows "c = Inr None \<and> rest = Inr (True, m)"
proof (cases c)
  case (Inl e)
  with assms show ?thesis by (simp add: echeck_def)
next
  case (Inr r)
  with assms show ?thesis by (cases r) (simp_all add: echeck_def)
qed

lemma find_email_user_Some:
  "find_email_user users email ex = Inr (Some user) \<Longrightarrow> user \<noteq> []"
proof (induction users)
  case Nil
  then show ?case by simp
next
  case (Cons u rest)
  show ?case
  proof (cases "dict_getitem u ''email''")
    case (Inl e)
    with Cons.prems show ?thesis by (simp add: ebind_def)
  next
    case (Inr e)
    then have "u \<noteq> []" by (auto simp: dict_getitem_def)
    with Cons Inr show ?thesis
      by (auto simp: ebind_def split: if_splits sum.splits)
  qed
qed

lemma find_email_user_None:
  assumes "find_email_user users email ex = Inr None"
    and "\<forall>u \<in> set users. dict_getitem u ''id'' \<noteq> Inr ex"
  shows "\<forall>u \<in> set users. dict_get u ''email'' JNull \<noteq> JStr email"
  using assms
proof (induction users)
  case Nil
  then show ?case by simp
next
  case (Cons u rest)
  from Cons.prems(1) obtain e where e: "dict_getitem u ''email'' = Inr e"
    by (cases "dict_getitem u ''email''") (simp_all add: ebind_def)
  then have g: "dict_get u ''email'' JNull = e"
    by (auto simp: dict_getitem_def dict_get_def split: option.splits)
  show ?case
  proof (cases "e = JStr email")
    case True
    with Cons.prems(1) e obtain i where i: "dict_getitem u ''id'' = Inr i"
      by (cases "dict_getitem u ''id''") (simp_all add: ebind_def)
    with Cons.prems(2) have "i \<noteq> ex" by auto
    with Cons.prems(1) e i True show ?thesis by (simp add: ebind_def)
  next
    case False
    with Cons.prems(1) e have "find_email_user rest email ex = Inr None"
      by (simp add: ebind_def)
    with Cons.IH Cons.prems(2) have "\<forall>u \<in> set rest. dict_get u ''email'' JNull \<noteq> JStr email"
      by simp
    with False g show ?thesis by simp
  qed
qed

lemma email_block_passed:
  assumes "email_block st data ex = Inr None"
    and "py_getitem data ''email'' = Inr email"
    and "\<forall>u \<in> set (SAMPLE_USERS st). dict_getitem u ''id'' \<noteq> Inr ex"
  shows "\<forall>u \<in> set (SAMPLE_USERS st). dict_get u ''email'' JNull \<noteq> email"
proof -
  from assms(2) obtain d where d: "data = JObj d" and has: "dict_has d ''email''"
    by (cases data) (auto simp: dict_getitem_def dict_has_def not_subscriptable_def split: option.splits)
  from assms(1,2) d has obtain s where s: "email = JStr s"
    by (cases email) (simp_all add: email_block_def ebind_def)
  from assms(1,2) d has s have m: "match_email s"
    by (simp add: email_block_def ebind_def split: if_splits)
  from assms(1,2) d has s m have "find_email_user (SAMPLE_USERS st) s ex = Inr None"
    by (auto simp: email_block_def ebind_def
        split: sum.splits option.splits if_splits dest: find_email_user_Some)
  from find_email_user_None [OF this assms(3)] s show ?thesis by simp
qed


lemma validate_user_data_valid:
  assumes "validate_user_data st data False JNull = Inr (True, m)"
  shows "email_block st data JNull = Inr None"
proof -
  note v = assms [unfolded validate_user_data_def]
  note v1 = echeck_valid [OF v, THEN conjunct2]
  note v2 = echeck_valid [OF v1, THEN conjunct2]
  note v3 = echeck_valid [OF v2, THEN conjunct2]
  from echeck_valid [OF v3] show ?thesis by simp
qed

lemma append_user_state:
  assumes "append_user clock data user_id st = Inr (outcome, st')"
  shows "\<exists>email new_user.
           py_getitem data ''email'' = Inr email
           \<and> SAMPLE_USERS st' = SAMPLE_USERS st @ [new_user]
           \<and> dict_get new_user ''email'' JNull = email
           \<and> dict_getitem new_user ''id'' = Inr user_id"
  using assms
  by (auto simp: append_user_def ebind_def utcnow_isoformat_def Let_def dict_get_def
      dict_getitem_def split: sum.splits)

lemma assign_id_set:
  assumes "assign_id st entity_type tag collection data = Some (Inr (Inr entity_id))"
  shows "entity_id \<noteq> JNull"
  using assms
  by (auto simp: assign_id_def split: sum.splits if_splits option.splits prod.splits)

lemma create_user_state:
  assumes "create_user clock data st = Some (Inr (outcome, st'))"
  shows "st' = st
         \<or> (\<exists>m user_id. validate_user_data st data False JNull = Inr (True, m)
               \<and> user_id \<noteq> JNull
               \<and> append_user clock data user_id st = Inr (outcome, st'))"
proof (cases "validate_user_data st data False JNull")
  case (Inl e)
  with assms show ?thesis by (simp add: create_user_def)
next
  case (Inr v)
  obtain is_valid m where v: "v = (is_valid, m)" by (cases v)
  show ?thesis
  proof (cases is_valid)
    case False
    with Inr v assms show ?thesis by (simp add: create_user_def)
  next
    case True
    show ?thesis
    proof (cases "assign_id st ''user'' ''USER'' (SAMPLE_USERS st) data")
      case None
      with Inr v True assms show ?thesis by (simp add: create_user_def)
    next
      case (Some a)
      show ?thesis
      proof (cases a)
        case (Inl e)
        with Some Inr v True assms show ?thesis by (simp add: create_user_def)
      next
        case a: (Inr b)
        show ?thesis
        proof (cases b)
          case (Inl dup)
          with a Some Inr v True assms show ?thesis by (simp add: create_user_def)
        next
          case b: (Inr user_id)
          from Some a b have "user_id \<noteq> JNull" by (auto dest: assign_id_set)
          moreover from b a Some Inr v True assms
          have "append_user clock data user_id st = Inr (outcome, st')"
            by (simp add: create_user_def)
          ultimately show ?thesis using Inr v True by auto
        qed
      qed
    qed
  qed
qed

lemma create_user_invariant:
  assumes "create_user clock data st = Some (Inr (outcome, st'))"
    and "emails_unique st" and "user_ids_set st"
  shows "emails_unique st' \<and> user_ids_set st'"
proof -
  from create_user_state [OF assms(1)] show ?thesis
  proof
    assume "st' = st"
    with assms show ?thesis by simp
  next
    assume "\<exists>m user_id. validate_user_data st data False JNull = Inr (True, m)
               \<and> user_id \<noteq> JNull
               \<and> append_user clock data user_id st = Inr (outcome, st')"
    then obtain m user_id where v: "validate_user_data st data False JNull = Inr (True, m)"
      and u: "user_id \<noteq> JNull"
      and a: "append_user clock data user_id st = Inr (outcome, st')"
      by blast
    from append_user_state [OF a] obtain email new_user
      where e: "py_getitem data ''email'' = Inr email"
        and s: "SAMPLE_USERS st' = SAMPLE_USERS st @ [new_user]"
        and ne: "dict_get new_user ''email'' JNull = email"
        and ni: "dict_getitem new_user ''id'' = Inr user_id"
      by blast
    from assms(3) have ids: "\<forall>u \<in> set (SAMPLE_USERS st). dict_getitem u ''id'' \<noteq> Inr JNull"
      by (simp add: user_ids_set_def list_all_iff)
    from email_block_passed [OF validate_user_data_valid [OF v] e ids]
    have "email \<notin> set (user_emails st)"
      by (auto simp: user_emails_def)
    with assms(2) s ne have "emails_unique st'"
      by (simp add: emails_unique_def user_emails_def)
    moreover from assms(3) s ni u have "user_ids_set st'"
      by (simp add: user_ids_set_def)
    ultimately show ?thesis ..
  qed
qed

lemma batch_create_user_invariant:
  assumes "batch_create (create_user clock) i op st = Some (entry, st')"
    and "emails_unique st" and "user_ids_set st"
  shows "emails_unique st' \<and> user_ids_set st'"
proof (cases "py_getitem op ''data''")
  case (Inl e)
  with assms show ?thesis by (simp add: batch_create_def)
next
  case (Inr data)
  show ?thesis
  proof (cases "create_user clock data st")
    case None
    with Inr assms show ?thesis by (simp add: batch_create_def)
  next
    case (Some c)
    show ?thesis
    proof (cases c)
      case (Inl e)
      with Some Inr assms show ?thesis by (simp add: batch_create_def)
    next
      case c: (Inr p)
      obtain outcome st1 where p: "p = (outcome, st1)" by (cases p)
      with c Some Inr assms(1) have "st' = st1"
        by (cases outcome) (simp_all add: batch_create_def)
      with create_user_invariant [OF Some [unfolded c p] assms(2,3)] show ?thesis by simp
    qed
  qed
qed

lemma batch_loop_user_invariant:
  "batch_loop (create_user clock) ops i results st = Some (Inr (results', st')) \<Longrightarrow>
   emails_unique st \<Longrightarrow> user_ids_set st \<Longrightarrow> emails_unique st' \<and> user_ids_set st'"
proof (induction ops arbitrary: i results st)
  case Nil
  then show ?case by simp
next
  case (Cons op rest)
  show ?case
  proof (cases "py_getitem op ''action''")
    case (Inl e)
    with Cons.prems show ?thesis by simp
  next
    case (Inr action)
    show ?thesis
    proof (cases "action = JStr ''create''")
      case True
      with Inr Cons.prems(1) obtain entry st1
        where b: "batch_create (create_user clock) i op st = Some (entry, st1)"
          and l: "batch_loop (create_user clock) rest (Suc i) (results @ [entry]) st1
                  = Some (Inr (results', st'))"
        by (auto split: option.splits)
      from batch_create_user_invariant [OF b Cons.prems(2,3)]
      have "emails_unique st1" and "user_ids_set st1" by simp_all
      from Cons.IH [OF l this] show ?thesis .
    next
      case False
      with Inr Cons.prems(1)
      have "batch_loop (create_user clock) rest (Suc i) results st = Some (Inr (results', st'))"
        by simp
      from Cons.IH [OF this Cons.prems(2,3)] show ?thesis .
    qed
  qed
qed

lemma create_users_keep_emails_unique:
  assumes "emails_unique st" and "user_ids_set st"
  shows "handle_users_post clock body st = Some (response, st')
           \<Longrightarrow> emails_unique st' \<and> user_ids_set st'"
    and "batch_users clock body st = Some (response, st')
           \<Longrightarrow> emails_unique st' \<and> user_ids_set st'"
proof -
  assume "handle_users_post clock body st = Some (response, st')"
  then have "st' = st \<or> (\<exists>data outcome. create_user clock data st = Some (Inr (outcome, st')))"
    by (auto simp: handle_users_post_def handle_post_def
        split: option.splits prod.splits if_splits sum.splits creation.splits)
  with assms create_user_invariant show "emails_unique st' \<and> user_ids_set st'"
    by blast
next
  assume "batch_users clock body st = Some (response, st')"
  then have "st' = st
     \<or> (\<exists>ops results. batch_loop (create_user clock) ops 0 [] st = Some (Inr (results, st')))"
    by (auto simp: batch_users_def batch_endpoint_def
        split: option.splits prod.splits if_splits sum.splits json.splits)
  with assms batch_loop_user_invariant show "emails_unique st' \<and> user_ids_set st'"
    by blast
qed

end
